theory Spec2Isabelle
  imports Complex_Main "HOL-Library.Word"
begin

section \<open>Faults and logging\<close>

text \<open>
  The ways a call of the program can end without returning: \<open>INFOF\<close> logs at level Fatal
  and calls \<open>abort()\<close>; a null or out-of-range dereference is undefined behaviour;
  \<open>std::promise::set_value\<close> on a promise that already holds a value throws
  \<open>std::future_error\<close> (promise already satisfied); \<open>std::vector::resize\<close> with a
  negative \<open>int\<close> (converted to a huge \<open>size_t\<close>) throws \<open>std::length_error\<close>.
\<close>

datatype fault = Abort | Undefined | PromiseAlreadySatisfied | LengthError

datatype LogLevel = Debug | Verbose | Info | Warning | Error | Fatal

section \<open>MonopolyAllocator: the bounded pool of reusable slots\<close>

text \<open>
  \<open>MonopolyData\<close>: the lazily constructed item and the availability flag. The back pointer
  \<open>manager_\<close> is the allocator whose table holds the slot; a slot is named by its index in
  \<open>datas\<close>.
\<close>

record 'a MonopolyData =
  data :: "'a option"
  available :: bool

datatype signal = NotifyOne | NotifyAll

text \<open>
  The allocator's fields, named as in the source without the trailing underscore
  (\<open>pool_run\<close> is \<open>run_\<close>). \<open>cv\<close> and \<open>cv_exit\<close> record the notifications sent on the two
  condition variables, oldest first.
\<close>

record 'a MonopolyAllocator =
  datas :: "'a MonopolyData list"
  capacity :: int
  num_available :: int
  num_wait_thread :: int
  pool_run :: bool
  cv :: "signal list"
  cv_exit :: "signal list"

text \<open>The constructor \<open>MonopolyAllocator(int size)\<close>, with \<open>sz\<close> for \<open>size\<close>.\<close>

definition new_MonopolyAllocator :: "int \<Rightarrow> fault + 'a MonopolyAllocator" where
  "new_MonopolyAllocator sz =
     (if sz < 0 then Inl LengthError
      else Inr \<lparr>datas = replicate (nat sz) \<lparr>data = None, available = True\<rparr>,
                capacity = sz,
                num_available = sz,
                num_wait_thread = 0,
                pool_run = True,
                cv = [],
                cv_exit = []\<rparr>)"

text \<open>\<open>std::find_if(datas_.begin(), datas_.end(), item->available_)\<close>: the first available slot.\<close>

fun find_if_available :: "'a MonopolyData list \<Rightarrow> nat option" where
  "find_if_available [] = None"
| "find_if_available (d # ds) =
     (if available d then Some 0 else map_option Suc (find_if_available ds))"

text \<open>The tail of \<open>query\<close>, from \<open>std::find_if\<close> on.\<close>

definition query_take :: "'a MonopolyAllocator \<Rightarrow> nat option \<times> 'a MonopolyAllocator" where
  "query_take s =
     (case find_if_available (datas s) of
        None \<Rightarrow> (None, s)
      | Some i \<Rightarrow>
          (Some i, s\<lparr>datas := (datas s)[i := (datas s ! i)\<lparr>available := False\<rparr>],
                     num_available := num_available s - 1\<rparr>))"

text \<open>
  \<open>query(timeout)\<close>. The call holds \<open>lock_\<close> except inside \<open>cv_.wait_for\<close>, where the
  other threads run: \<open>during_wait\<close> is what they do to the allocator until this thread
  holds the lock again. \<open>wait_for\<close> with a predicate returns the predicate's value at that
  moment, so \<open>state\<close> is false exactly when the wait timed out with nothing free and the
  pool still running. The result is the index of the slot handed out, or \<open>None\<close> for
  \<open>nullptr\<close>.
\<close>

definition query ::
  "('a MonopolyAllocator \<Rightarrow> 'a MonopolyAllocator) \<Rightarrow> 'a MonopolyAllocator
     \<Rightarrow> nat option \<times> 'a MonopolyAllocator" where
  "query during_wait s =
     (if \<not> pool_run s then (None, s)
      else if num_available s = 0 then
        (let s1 = s\<lparr>num_wait_thread := num_wait_thread s + 1\<rparr>;
             s2 = during_wait s1;
             state = (num_available s2 > 0 \<or> \<not> pool_run s2);
             s3 = s2\<lparr>num_wait_thread := num_wait_thread s2 - 1,
                     cv_exit := cv_exit s2 @ [NotifyOne]\<rparr>
         in if \<not> state \<or> num_available s3 = 0 \<or> \<not> pool_run s3 then (None, s3)
            else query_take s3)
      else query_take s)"

text \<open>
  \<open>release_one(prq)\<close>, with \<open>prq\<close> the slot of index \<open>i\<close>. The source receives a pointer
  to a slot of this allocator, so an index outside the table is no slot at all and
  nothing happens.
\<close>

definition release_one :: "nat \<Rightarrow> 'a MonopolyAllocator \<Rightarrow> 'a MonopolyAllocator" where
  "release_one i s =
     (if i < length (datas s) \<and> \<not> available (datas s ! i)
      then s\<lparr>datas := (datas s)[i := (datas s ! i)\<lparr>available := True\<rparr>],
             num_available := num_available s + 1,
             cv := cv s @ [NotifyOne]\<rparr>
      else s)"

text \<open>The destructor's first two statements: the pool shuts down and wakes every waiter.\<close>

definition shutdown :: "'a MonopolyAllocator \<Rightarrow> 'a MonopolyAllocator" where
  "shutdown s = s\<lparr>pool_run := False, cv := cv s @ [NotifyAll]\<rparr>"

text \<open>
  What the threads sharing a pool do to it: a \<open>query\<close> (with the operations the other
  threads perform while it waits), the release of a slot, the shutdown.
\<close>

datatype pool_op = Query "pool_op list" | Release nat | Shutdown

primrec exec_op :: "pool_op \<Rightarrow> 'a MonopolyAllocator \<Rightarrow> 'a MonopolyAllocator" where
  "exec_op (Query ws) = (\<lambda>s. snd (query (\<lambda>s1. fold (\<lambda>f. f) (map exec_op ws) s1) s))"
| "exec_op (Release i) = release_one i"
| "exec_op Shutdown = shutdown"

definition run_ops :: "pool_op list \<Rightarrow> 'a MonopolyAllocator \<Rightarrow> 'a MonopolyAllocator" where
  "run_ops ops s = fold (\<lambda>f. f) (map exec_op ops) s"

text \<open>The slots in use, and the slots whose flag says available.\<close>

definition num_in_use :: "'a MonopolyAllocator \<Rightarrow> int" where
  "num_in_use s = int (length (filter (\<lambda>d. \<not> available d) (datas s)))"

definition num_flagged_available :: "'a MonopolyAllocator \<Rightarrow> int" where
  "num_flagged_available s = int (length (filter available (datas s)))"

text \<open>The pool's invariant: the counter agrees with the flags, and the table has \<open>capacity\<close> slots.\<close>

definition pool_inv :: "'a MonopolyAllocator \<Rightarrow> bool" where
  "pool_inv s \<longleftrightarrow>
     num_available s = num_flagged_available s \<and>
     int (length (datas s)) = capacity s"


text \<open>
  The allocator as \<open>query\<close> sees it when it reaches \<open>std::find_if\<close>: the allocator it was
  called on when a slot was free, and otherwise the allocator it holds again after
  \<open>cv_.wait_for\<close>, with itself no longer counted among the waiting threads.
\<close>

definition before_take ::
  "('a MonopolyAllocator \<Rightarrow> 'a MonopolyAllocator) \<Rightarrow> 'a MonopolyAllocator \<Rightarrow> 'a MonopolyAllocator" where
  "before_take during_wait s =
     (if num_available s = 0 then
        (let s2 = during_wait (s\<lparr>num_wait_thread := num_wait_thread s + 1\<rparr>)
         in s2\<lparr>num_wait_thread := num_wait_thread s2 - 1, cv_exit := cv_exit s2 @ [NotifyOne]\<rparr>)
      else s)"

text \<open>A pool of two slots, both free: what \<open>MonopolyAllocator(2)\<close> constructs.\<close>

definition pool2 :: "unit MonopolyAllocator" where
  "pool2 = \<lparr>datas = [\<lparr>data = None, available = True\<rparr>, \<lparr>data = None, available = True\<rparr>],
            capacity = 2, num_available = 2, num_wait_thread = 0, pool_run = True,
            cv = [], cv_exit = []\<rparr>"

section \<open>MixMemory and Tensor\<close>

text \<open>
  \<open>int\<close> is a 32-bit word and \<open>size_t\<close> a 64-bit word. Where the source multiplies
  \<open>int\<close>s, the product wraps (signed overflow, undefined in C++, is two's complement
  here); an \<open>int\<close> compared with or assigned to a \<open>size_t\<close> is sign-extended first
  (\<open>scast\<close>), as the usual arithmetic conversions do. Comparison of words is unsigned.
\<close>

type_synonym c_int = "32 word"
type_synonym size_t = "64 word"

text \<open>
  The messages of the log, with the level each is written at. \<open>INFOE\<close> writes at
  level \<open>Error\<close> and returns; only level \<open>Fatal\<close> aborts.
\<close>

type_synonym log = "(LogLevel \<times> string) list"

text \<open>
  The CUDA device state a call reads: the calling thread's current device and the
  number of devices.
\<close>

record cuda_env =
  current_device :: int
  device_count :: int

definition check_device_id :: "cuda_env \<Rightarrow> int \<Rightarrow> log" where
  "check_device_id env device_id =
     (if device_id < 0 \<or> device_id \<ge> device_count env
      then [(Error, ''Invalid device id: %d, count = %d'')] else [])"

text \<open>\<open>get_device(device_id)\<close>, with \<open>CURRENT_DEVICE_ID = -1\<close>: the device and what is logged.\<close>

definition get_device :: "cuda_env \<Rightarrow> int \<Rightarrow> int \<times> log" where
  "get_device env device_id =
     (if device_id \<noteq> -1 then (device_id, check_device_id env device_id)
      else (current_device env, []))"

text \<open>
  \<open>MixMemory\<close>. A pointer is \<open>None\<close> when null and otherwise the bytes it points to.
  An allocation succeeds and is zero-filled, as \<open>cudaMemset\<close> and \<open>memset\<close> leave it.
\<close>

record MixMemory =
  mem_cpu :: "8 word list option"
  mem_cpu_size :: size_t
  mem_owner_cpu :: bool
  mem_device_id :: int
  mem_gpu :: "8 word list option"
  mem_gpu_size :: size_t
  mem_owner_gpu :: bool

definition new_MixMemory :: "int \<Rightarrow> MixMemory" where
  "new_MixMemory dev =
     \<lparr>mem_cpu = None, mem_cpu_size = 0, mem_owner_cpu = True, mem_device_id = dev,
      mem_gpu = None, mem_gpu_size = 0, mem_owner_gpu = True\<rparr>"

definition release_cpu :: "MixMemory \<Rightarrow> MixMemory" where
  "release_cpu m = m\<lparr>mem_cpu := None, mem_cpu_size := 0\<rparr>"

definition release_gpu :: "MixMemory \<Rightarrow> MixMemory" where
  "release_gpu m = m\<lparr>mem_gpu := None, mem_gpu_size := 0\<rparr>"

definition release_all :: "MixMemory \<Rightarrow> MixMemory" where
  "release_all m = release_gpu (release_cpu m)"

text \<open>\<open>MixMemory::gpu(size)\<close> and \<open>MixMemory::cpu(size)\<close>: grown only when too small.\<close>

definition MixMemory_gpu :: "size_t \<Rightarrow> MixMemory \<Rightarrow> MixMemory" where
  "MixMemory_gpu sz m =
     (if mem_gpu_size m < sz
      then (release_gpu m)\<lparr>mem_gpu_size := sz, mem_gpu := Some (replicate (unat sz) 0)\<rparr>
      else m)"

definition MixMemory_cpu :: "size_t \<Rightarrow> MixMemory \<Rightarrow> MixMemory" where
  "MixMemory_cpu sz m =
     (if mem_cpu_size m < sz
      then (release_cpu m)\<lparr>mem_cpu_size := sz, mem_cpu := Some (replicate (unat sz) 0)\<rparr>
      else m)"

datatype DataHead = Init | Device | Host

text \<open>
  \<open>Tensor\<close>. The fields are the source's without the trailing underscore
  (\<open>tensor_data\<close> is \<open>data_\<close>); the two display strings are left out. The stream is a
  handle, \<open>None\<close> when null.
\<close>

record Tensor =
  shape :: "c_int list"
  strides :: "size_t list"
  bytes :: size_t
  head :: DataHead
  stream :: "nat option"
  device_id :: int
  tensor_data :: MixMemory
  workspace :: "MixMemory option"

text \<open>\<open>element_size()\<close> is \<open>sizeof(float)\<close>.\<close>

definition element_size :: c_int where
  "element_size = 4"

text \<open>\<open>Tensor::numel()\<close>.\<close>

definition numel :: "Tensor \<Rightarrow> c_int" where
  "numel t = fold (\<lambda>d v. v * d) (shape t) (if shape t = [] then 0 else 1)"

text \<open>
  The first loop of \<open>Tensor::resize(ndims, dims)\<close>, from index \<open>i\<close> on: a dimension of
  \<open>-1\<close> keeps the current one, and asserts that the number of dimensions is unchanged.
\<close>

fun setup_dims :: "c_int list \<Rightarrow> nat \<Rightarrow> nat \<Rightarrow> c_int list \<Rightarrow> fault + c_int list" where
  "setup_dims shp ndims i [] = Inr []"
| "setup_dims shp ndims i (d # ds) =
     (if d = -1 \<and> ndims \<noteq> length shp then Inl Abort
      else case setup_dims shp ndims (Suc i) ds of
             Inl e \<Rightarrow> Inl e
           | Inr r \<Rightarrow> Inr ((if d = -1 then shp ! i else d) # r))"

text \<open>The second loop: strides from the last dimension back, in bytes.\<close>

fun compute_strides :: "c_int list \<Rightarrow> size_t list" where
  "compute_strides [] = []"
| "compute_strides [d] = [scast element_size * 1]"
| "compute_strides (d # d' # ds) =
     (let r = compute_strides (d' # ds) in (hd r * scast d') # r)"

text \<open>\<open>Tensor::adajust_memory_by_update_dims_or_type()\<close>.\<close>

definition adajust_memory_by_update_dims_or_type :: "Tensor \<Rightarrow> Tensor" where
  "adajust_memory_by_update_dims_or_type t =
     (let needed_size = numel t * element_size;
          t1 = (if (scast needed_size :: size_t) > bytes t then t\<lparr>head := Init\<rparr> else t)
      in t1\<lparr>bytes := scast needed_size\<rparr>)"

text \<open>\<open>Tensor::resize(ndims, dims)\<close>, which \<open>resize(const std::vector<int>&)\<close> calls.\<close>

definition resize :: "c_int list \<Rightarrow> Tensor \<Rightarrow> fault + Tensor" where
  "resize dims t =
     (case setup_dims (shape t) (length dims) 0 dims of
        Inl e \<Rightarrow> Inl e
      | Inr setup \<Rightarrow>
          Inr (adajust_memory_by_update_dims_or_type
                 (t\<lparr>shape := setup, strides := compute_strides setup\<rparr>)))"


text \<open>
  \<open>cudaMemcpyAsync(dst + off, src, n, ...)\<close>: what \<open>dst\<close> points to afterwards. The first
  \<open>n\<close> bytes of \<open>src\<close> replace the bytes of \<open>dst\<close> from \<open>off\<close> on; a copy of no bytes
  changes nothing. Otherwise a null pointer, or a range that leaves either buffer, is
  undefined behaviour.
\<close>

definition memcpy ::
  "8 word list option \<Rightarrow> nat \<Rightarrow> 8 word list option \<Rightarrow> nat \<Rightarrow> fault + 8 word list option" where
  "memcpy dst off src n =
     (if n = 0 then Inr dst
      else case (dst, src) of
        (Some d, Some s) \<Rightarrow>
          if off + n \<le> length d \<and> n \<le> length s
          then Inr (Some (take off d @ take n s @ drop (off + n) d))
          else Inl Undefined
      | _ \<Rightarrow> Inl Undefined)"

text \<open>\<open>Tensor::to_gpu(copy)\<close> and \<open>Tensor::to_cpu(copy)\<close>.\<close>

definition to_gpu :: "bool \<Rightarrow> Tensor \<Rightarrow> fault + Tensor" where
  "to_gpu copy t =
     (if head t = Device then Inr t
      else
        (let t1 = t\<lparr>head := Device, tensor_data := MixMemory_gpu (bytes t) (tensor_data t)\<rparr>
         in if copy \<and> mem_cpu (tensor_data t1) \<noteq> None then
              (case memcpy (mem_gpu (tensor_data t1)) 0 (mem_cpu (tensor_data t1)) (unat (bytes t1)) of
                 Inl e \<Rightarrow> Inl e
               | Inr g \<Rightarrow> Inr (t1\<lparr>tensor_data := (tensor_data t1)\<lparr>mem_gpu := g\<rparr>\<rparr>))
            else Inr t1))"

definition to_cpu :: "bool \<Rightarrow> Tensor \<Rightarrow> fault + Tensor" where
  "to_cpu copy t =
     (if head t = Host then Inr t
      else
        (let t1 = t\<lparr>head := Host, tensor_data := MixMemory_cpu (bytes t) (tensor_data t)\<rparr>
         in if copy \<and> mem_gpu (tensor_data t1) \<noteq> None then
              (case memcpy (mem_cpu (tensor_data t1)) 0 (mem_gpu (tensor_data t1)) (unat (bytes t1)) of
                 Inl e \<Rightarrow> Inl e
               | Inr c \<Rightarrow> Inr (t1\<lparr>tensor_data := (tensor_data t1)\<lparr>mem_cpu := c\<rparr>\<rparr>))
            else Inr t1))"

text \<open>
  \<open>Tensor::copy_from_gpu(offset, src, num_element, device_id)\<close>: the tensor afterwards
  and what was logged. \<open>src\<close> is the device memory the source pointer points to.
  Both branches for a tensor on the device (peer copy or plain copy) write the same bytes.
\<close>

definition copy_from_gpu ::
  "cuda_env \<Rightarrow> size_t \<Rightarrow> 8 word list option \<Rightarrow> size_t \<Rightarrow> int \<Rightarrow> Tensor
     \<Rightarrow> fault + (Tensor \<times> log)" where
  "copy_from_gpu env offset src num_element dev t =
     (case (if head t = Init then to_gpu False t else Inr t) of
        Inl e \<Rightarrow> Inl e
      | Inr t1 \<Rightarrow>
          (let offset_location = offset * scast element_size in
           if offset_location \<ge> bytes t1
           then Inr (t1, [(Error, ''Offset location[%lld] >= bytes_[%lld], out of range'')])
           else
             (let copyed_bytes = num_element * scast element_size;
                  remain_bytes = bytes t1 - offset_location in
              if copyed_bytes > remain_bytes
              then Inr (t1, [(Error, ''Copyed bytes[%lld] > remain bytes[%lld], out of range'')])
              else if head t1 = Device then
                (case memcpy (mem_gpu (tensor_data t1)) (unat offset_location) src (unat copyed_bytes) of
                   Inl e \<Rightarrow> Inl e
                 | Inr g \<Rightarrow>
                     Inr (t1\<lparr>tensor_data := (tensor_data t1)\<lparr>mem_gpu := g\<rparr>\<rparr>,
                          snd (get_device env dev)))
              else if head t1 = Host then
                (case memcpy (mem_cpu (tensor_data t1)) (unat offset_location) src (unat copyed_bytes) of
                   Inl e \<Rightarrow> Inl e
                 | Inr c \<Rightarrow> Inr (t1\<lparr>tensor_data := (tensor_data t1)\<lparr>mem_cpu := c\<rparr>\<rparr>, []))
              else Inr (t1, [(Error, ''Unsupport head type %d'')]))))"

text \<open>
  \<open>Tensor(dims)\<close> with no memory block given: \<open>setup_data\<close> makes a fresh block on the
  tensor's device, the tag is \<open>Init\<close>, and \<open>resize\<close> sets the shape.
\<close>

definition new_Tensor :: "cuda_env \<Rightarrow> c_int list \<Rightarrow> fault + Tensor" where
  "new_Tensor env dims =
     (let dev = fst (get_device env (-1)) in
      resize dims \<lparr>shape = [], strides = [], bytes = 0, head = Init, stream = None,
                   device_id = dev, tensor_data = new_MixMemory (fst (get_device env dev)),
                   workspace = None\<rparr>)"

text \<open>
  Tensors to evaluate on. \<open>env0\<close>: one device, selected. \<open>fresh16\<close>: what
  \<open>Tensor(1, 1, 2, 2)\<close> constructs, 16 bytes, nothing allocated yet. \<open>device64\<close>: a tensor of
  shape 2 x 8 after \<open>to_gpu()\<close>, 64 bytes on the device.
\<close>

definition env0 :: cuda_env where
  "env0 = \<lparr>current_device = 0, device_count = 1\<rparr>"

definition fresh16 :: Tensor where
  "fresh16 = \<lparr>shape = [1, 1, 2, 2], strides = [16, 16, 8, 4], bytes = 16, head = Init,
              stream = None, device_id = 0, tensor_data = new_MixMemory 0, workspace = None\<rparr>"

definition device64 :: Tensor where
  "device64 = \<lparr>shape = [2, 8], strides = [32, 4], bytes = 64, head = Device,
               stream = None, device_id = 0,
               tensor_data = (new_MixMemory 0)\<lparr>mem_gpu := Some (replicate 64 0), mem_gpu_size := 64\<rparr>,
               workspace = None\<rparr>"

section \<open>The decode and NMS kernels, and the read-back of the boxes\<close>

text \<open>
  A \<open>float\<close> is an IEEE 754 single-precision value: a real number, an infinity, or NaN. The
  two zeros are one value, \<open>Finite 0\<close>, and the NaNs are one value. \<open>fround\<close> rounds a real
  number to the nearest \<open>float\<close>, ties to the even significand: \<open>quantum_exp a k n\<close> finds
  the exponent of the unit in the last place for magnitude \<open>a\<close>, from \<open>k = - 149\<close> (the
  subnormals) upwards, and a magnitude that rounds to \<open>2 ^ 128\<close> or more becomes an infinity.
  \<open>Finite r\<close> is a \<open>float\<close> of the machine when \<open>fround r = Finite r\<close>; every operation below
  returns such a value, and what is proved for all \<open>Finite r\<close> holds for them.
  A device array is the list of its elements; a pointer into it is an index.
\<close>

datatype float = Finite real | PInf | NInf | NaN

fun quantum_exp :: "real \<Rightarrow> int \<Rightarrow> nat \<Rightarrow> int" where
  "quantum_exp a k 0 = k"
| "quantum_exp a k (Suc n) = (if a < 2 powi (k + 24) then k else quantum_exp a (k + 1) n)"

definition round_half_even :: "real \<Rightarrow> int" where
  "round_half_even r =
     (let f = \<lfloor>r\<rfloor>; d = r - of_int f in
      if d < 1 / 2 then f else if d > 1 / 2 then f + 1 else if even f then f else f + 1)"

definition fround :: "real \<Rightarrow> float" where
  "fround x =
     (let a = \<bar>x\<bar>;
          q = 2 powi (quantum_exp a (- 149) 253);
          r = of_int (round_half_even (a / q)) * q in
      if r \<ge> 2 ^ 128 then (if x > 0 then PInf else NInf)
      else Finite (if x < 0 then - r else r))"

text \<open>
  The comparisons \<open><\<close>, \<open>==\<close>, \<open>>\<close>, \<open>>=\<close> and \<open>!=\<close> of two floats. A comparison with NaN is
  false, but for \<open>!=\<close>, which is true.
\<close>

fun flt :: "float \<Rightarrow> float \<Rightarrow> bool" where
  "flt (Finite x) (Finite y) = (x < y)"
| "flt (Finite x) PInf = True"
| "flt NInf (Finite y) = True"
| "flt NInf PInf = True"
| "flt _ _ = False"

definition feq :: "float \<Rightarrow> float \<Rightarrow> bool" where
  "feq a b \<longleftrightarrow> a \<noteq> NaN \<and> a = b"

definition fgt :: "float \<Rightarrow> float \<Rightarrow> bool" where
  "fgt a b = flt b a"

definition fge :: "float \<Rightarrow> float \<Rightarrow> bool" where
  "fge a b \<longleftrightarrow> fgt a b \<or> feq a b"

definition fne :: "float \<Rightarrow> float \<Rightarrow> bool" where
  "fne a b \<longleftrightarrow> \<not> feq a b"

text \<open>
  The arithmetic of floats, each operation rounded on its own (no fused multiply-add):
  \<open>fadd\<close>, \<open>fsub\<close>, \<open>fmul\<close> and \<open>fdiv\<close> are \<open>+\<close>, \<open>-\<close>, \<open>*\<close> and \<open>/\<close>. NaN propagates; the
  difference of equal infinities, the product of an infinity and zero, and the quotients
  of two zeros and of two infinities are NaN. A zero divisor counts as positive.
\<close>

fun negative :: "float \<Rightarrow> bool" where
  "negative (Finite x) = (x < 0)"
| "negative NInf = True"
| "negative _ = False"

fun fneg :: "float \<Rightarrow> float" where
  "fneg (Finite x) = Finite (- x)"
| "fneg PInf = NInf"
| "fneg NInf = PInf"
| "fneg NaN = NaN"

fun fadd :: "float \<Rightarrow> float \<Rightarrow> float" where
  "fadd (Finite x) (Finite y) = fround (x + y)"
| "fadd NaN _ = NaN"
| "fadd _ NaN = NaN"
| "fadd PInf NInf = NaN"
| "fadd NInf PInf = NaN"
| "fadd PInf _ = PInf"
| "fadd _ PInf = PInf"
| "fadd NInf _ = NInf"
| "fadd _ NInf = NInf"

definition fsub :: "float \<Rightarrow> float \<Rightarrow> float" where
  "fsub a b = fadd a (fneg b)"

fun fmul :: "float \<Rightarrow> float \<Rightarrow> float" where
  "fmul (Finite x) (Finite y) = fround (x * y)"
| "fmul NaN _ = NaN"
| "fmul _ NaN = NaN"
| "fmul a b = (if a = Finite 0 \<or> b = Finite 0 then NaN
               else if negative a = negative b then PInf else NInf)"

fun fdiv :: "float \<Rightarrow> float \<Rightarrow> float" where
  "fdiv (Finite x) (Finite y) =
     (if y = 0 then (if x = 0 then NaN else if x > 0 then PInf else NInf)
      else fround (x / y))"
| "fdiv NaN _ = NaN"
| "fdiv _ NaN = NaN"
| "fdiv (Finite x) _ = Finite 0"
| "fdiv a (Finite y) = (if negative a = (y < 0) then PInf else NInf)"
| "fdiv _ _ = NaN"

text \<open>
  \<open>max\<close> and \<open>min\<close> of two floats in device code (\<open>fmaxf\<close>, \<open>fminf\<close>): when one
  argument is NaN, the other.
\<close>

definition fmax :: "float \<Rightarrow> float \<Rightarrow> float" where
  "fmax a b = (if a = NaN then b else if b = NaN then a else if flt a b then b else a)"

definition fmin :: "float \<Rightarrow> float \<Rightarrow> float" where
  "fmin a b = (if a = NaN then b else if b = NaN then a else if flt b a then b else a)"

definition NUM_BOX_ELEMENT :: nat where
  "NUM_BOX_ELEMENT = 7"

text \<open>
  Conversions. \<open>trunc\<close> truncates a real number towards zero. \<open>float2int\<close> is the
  conversion \<open>(int)x\<close> of a \<open>float\<close> in device code: truncation, saturated to the range
  of \<open>int\<close>, and 0 for NaN. \<open>to_int\<close> is the conversion in host code: truncation, and the
  least \<open>int\<close> for every value whose truncation is no \<open>int\<close> (what the conversion gives
  on x86-64; the language leaves it undefined). \<open>int2float\<close> converts an \<open>int\<close> to \<open>float\<close>.
\<close>

definition trunc :: "real \<Rightarrow> int" where
  "trunc x = (if x \<ge> 0 then \<lfloor>x\<rfloor> else \<lceil>x\<rceil>)"

fun float2int :: "float \<Rightarrow> int" where
  "float2int (Finite x) =
     (if trunc x > 2147483647 then 2147483647
      else if trunc x < - 2147483648 then - 2147483648 else trunc x)"
| "float2int PInf = 2147483647"
| "float2int NInf = - 2147483648"
| "float2int NaN = 0"

fun to_int :: "float \<Rightarrow> int" where
  "to_int (Finite x) =
     (if trunc x > 2147483647 \<or> trunc x < - 2147483648 then - 2147483648 else trunc x)"
| "to_int _ = - 2147483648"

definition int2float :: "int \<Rightarrow> float" where
  "int2float i = fround (of_int i)"

definition affine_project :: "float list \<Rightarrow> float \<Rightarrow> float \<Rightarrow> float \<times> float" where
  "affine_project matrix x y =
     (fadd (fadd (fmul (matrix ! 0) x) (fmul (matrix ! 1) y)) (matrix ! 2),
      fadd (fadd (fmul (matrix ! 3) x) (fmul (matrix ! 4) y)) (matrix ! 5))"

text \<open>
  The scan of \<open>decode_kernel\<close> over the class scores, which start at index \<open>cls\<close> of
  \<open>predict\<close>: the best score so far and its label, from class 0, for \<open>i = 1, ..., num_classes - 1\<close>.
\<close>

definition best_class :: "float list \<Rightarrow> nat \<Rightarrow> int \<Rightarrow> float \<times> int" where
  "best_class predict cls num_classes =
     fold (\<lambda>i (confidence, label).
             if fgt (predict ! (cls + i)) confidence then (predict ! (cls + i), int i)
             else (confidence, label))
          [1..<nat num_classes] (predict ! cls, 0)"

text \<open>
  One thread of \<open>decode_kernel\<close>, at \<open>position\<close>. \<open>parray\<close> holds the counter at index 0
  and then 7 floats for each box; \<open>atomicAdd(parray, 1)\<close> adds 1 to the counter, a
  \<open>float\<close>, and returns its old value.
\<close>

definition decode_thread ::
  "float list \<Rightarrow> int \<Rightarrow> int \<Rightarrow> float \<Rightarrow> float list \<Rightarrow> int \<Rightarrow> nat \<Rightarrow> float list \<Rightarrow> float list" where
  "decode_thread predict num_bboxes num_classes confidence_threshold invert_affine_matrix
       max_objects position parray =
     (if int position \<ge> num_bboxes then parray
      else
        (let pitem = nat ((5 + num_classes) * int position);
             objectness = predict ! (pitem + 4) in
         if flt objectness confidence_threshold then parray
         else
           (let confidence = fmul (fst (best_class predict (pitem + 5) num_classes)) objectness;
                label = snd (best_class predict (pitem + 5) num_classes) in
            if flt confidence confidence_threshold then parray
            else
              (let index = float2int (parray ! 0);
                   parray1 = parray[0 := fadd (parray ! 0) (Finite 1)] in
               if index \<ge> max_objects then parray1
               else
                 (let cx = predict ! pitem;
                      cy = predict ! (pitem + 1);
                      width = predict ! (pitem + 2);
                      height = predict ! (pitem + 3);
                      left = fsub cx (fmul width (Finite 0.5));
                      top = fsub cy (fmul height (Finite 0.5));
                      right = fadd cx (fmul width (Finite 0.5));
                      bottom = fadd cy (fmul height (Finite 0.5));
                      lt = affine_project invert_affine_matrix left top;
                      rb = affine_project invert_affine_matrix right bottom;
                      pout_item = nat (1 + index * int NUM_BOX_ELEMENT)
                  in parray1[pout_item := fst lt,
                             pout_item + 1 := snd lt,
                             pout_item + 2 := fst rb,
                             pout_item + 3 := snd rb,
                             pout_item + 4 := confidence,
                             pout_item + 5 := int2float label,
                             pout_item + 6 := Finite 1])))))"

definition box_iou ::
  "float \<Rightarrow> float \<Rightarrow> float \<Rightarrow> float \<Rightarrow> float \<Rightarrow> float \<Rightarrow> float \<Rightarrow> float \<Rightarrow> float" where
  "box_iou aleft atop aright abottom bleft btop bright bbottom =
     (let cleft = fmax aleft bleft;
          ctop = fmax atop btop;
          cright = fmin aright bright;
          cbottom = fmin abottom bbottom;
          c_area = fmul (fmax (fsub cright cleft) (Finite 0)) (fmax (fsub cbottom ctop) (Finite 0)) in
      if feq c_area (Finite 0) then Finite 0
      else
        (let a_area = fmul (fmax (Finite 0) (fsub aright aleft)) (fmax (Finite 0) (fsub abottom atop));
             b_area = fmul (fmax (Finite 0) (fsub bright bleft)) (fmax (Finite 0) (fsub bbottom btop))
         in fdiv c_area (fsub (fadd a_area b_area) c_area)))"

text \<open>
  The loop of \<open>nms_kernel\<close> over the boxes \<open>i\<close> still to visit: true when it reaches
  \<open>pcurrent[6] = 0; return\<close>. The loop reads elements 0 to 5 of the boxes only.
\<close>

fun nms_scan :: "float list \<Rightarrow> float \<Rightarrow> nat \<Rightarrow> nat list \<Rightarrow> bool" where
  "nms_scan bboxes threshold position [] = False"
| "nms_scan bboxes threshold position (i # rest) =
     (let pcurrent = 1 + position * NUM_BOX_ELEMENT;
          pitem = 1 + i * NUM_BOX_ELEMENT in
      if i = position \<or> fne (bboxes ! (pcurrent + 5)) (bboxes ! (pitem + 5))
      then nms_scan bboxes threshold position rest
      else if fge (bboxes ! (pitem + 4)) (bboxes ! (pcurrent + 4)) then
        (if feq (bboxes ! (pitem + 4)) (bboxes ! (pcurrent + 4)) \<and> i < position
         then nms_scan bboxes threshold position rest
         else if fgt (box_iou (bboxes ! pcurrent) (bboxes ! (pcurrent + 1))
                              (bboxes ! (pcurrent + 2)) (bboxes ! (pcurrent + 3))
                              (bboxes ! pitem) (bboxes ! (pitem + 1))
                              (bboxes ! (pitem + 2)) (bboxes ! (pitem + 3))) threshold
         then True
         else nms_scan bboxes threshold position rest)
      else nms_scan bboxes threshold position rest)"

text \<open>One thread of \<open>nms_kernel\<close>, at \<open>position\<close>.\<close>

definition nms_thread :: "int \<Rightarrow> float \<Rightarrow> nat \<Rightarrow> float list \<Rightarrow> float list" where
  "nms_thread max_objects threshold position bboxes =
     (let count = min (float2int (bboxes ! 0)) max_objects in
      if int position \<ge> count then bboxes
      else if nms_scan bboxes threshold position [0..<nat count]
      then bboxes[1 + position * NUM_BOX_ELEMENT + 6 := Finite 0]
      else bboxes)"

text \<open>
  The launch configuration: \<open>block_dims\<close>, \<open>grid_dims\<close> (a quotient, truncated
  when it becomes the \<open>unsigned int\<close> of a \<open>dim3\<close>; the quotient is taken exactly
  here), and the number of threads a launch for \<open>numJobs\<close> starts. \<open>GPU_BLOCK_THREADS\<close>
  is 512.
\<close>

definition GPU_BLOCK_THREADS :: int where
  "GPU_BLOCK_THREADS = 512"

definition block_dims :: "int \<Rightarrow> int" where
  "block_dims numJobs = (if numJobs < GPU_BLOCK_THREADS then numJobs else GPU_BLOCK_THREADS)"

definition grid_dims :: "int \<Rightarrow> int" where
  "grid_dims numJobs =
     (let numBlockThreads = (if numJobs < GPU_BLOCK_THREADS then numJobs else GPU_BLOCK_THREADS)
      in trunc (of_int (numJobs + numBlockThreads - 1) / of_int numBlockThreads))"

definition launched :: "int \<Rightarrow> nat" where
  "launched numJobs = nat (grid_dims numJobs * block_dims numJobs)"

text \<open>
  A kernel launch runs its threads in an order the program does not choose. Each thread
  of these kernels writes only the box it owns (and the atomic counter), so a launch is
  its threads one after the other in some order \<open>sched\<close>: a schedule of a launch for
  \<open>numJobs\<close> lists every started thread once.
\<close>

definition schedule :: "int \<Rightarrow> nat list \<Rightarrow> bool" where
  "schedule numJobs sched \<longleftrightarrow> distinct sched \<and> set sched = {0..<launched numJobs}"


definition nms_kernel :: "nat list \<Rightarrow> float list \<Rightarrow> int \<Rightarrow> float \<Rightarrow> float list" where
  "nms_kernel sched bboxes max_objects threshold =
     fold (nms_thread max_objects threshold) sched bboxes"


text \<open>A detected box, as the worker hands it out.\<close>

record Box =
  box_left :: float
  box_top :: float
  box_right :: float
  box_bottom :: float
  box_confidence :: float
  box_class_label :: int

definition MAX_IMAGE_BBOX :: int where
  "MAX_IMAGE_BBOX = 1024"

text \<open>The box the worker builds from the 7 floats of box \<open>i\<close> of an image's row \<open>parray\<close>.\<close>

definition box_at :: "float list \<Rightarrow> nat \<Rightarrow> Box" where
  "box_at parray i =
     (let pbox = 1 + i * NUM_BOX_ELEMENT in
      \<lparr>box_left = parray ! pbox, box_top = parray ! (pbox + 1),
       box_right = parray ! (pbox + 2), box_bottom = parray ! (pbox + 3),
       box_confidence = parray ! (pbox + 4),
       box_class_label = to_int (parray ! (pbox + 5))\<rparr>)"

text \<open>
  The worker's loop over one image's row after \<open>to_cpu()\<close>: the count is clamped, and a
  box is appended to the job's output when its keep-flag, converted to \<open>int\<close>, is 1.
\<close>

definition collect_boxes :: "float list \<Rightarrow> Box list \<Rightarrow> Box list" where
  "collect_boxes parray image_based_boxes =
     (let count = min MAX_IMAGE_BBOX (to_int (parray ! 0)) in
      fold (\<lambda>i boxes.
              let keepflag = to_int (parray ! (1 + i * NUM_BOX_ELEMENT + 6)) in
              if keepflag = 1 then boxes @ [box_at parray i] else boxes)
           [0..<nat count] image_based_boxes)"

text \<open>
  Box \<open>i\<close> suppresses box \<open>position\<close>: another box of the same class, with a higher
  confidence or with the same confidence and a higher index, whose IoU with the box
  exceeds the threshold, all in the comparisons of floats.
\<close>

definition suppresses :: "float list \<Rightarrow> float \<Rightarrow> nat \<Rightarrow> nat \<Rightarrow> bool" where
  "suppresses bboxes threshold position i \<longleftrightarrow>
     i \<noteq> position \<and>
     feq (bboxes ! (1 + i * NUM_BOX_ELEMENT + 5)) (bboxes ! (1 + position * NUM_BOX_ELEMENT + 5)) \<and>
     (fgt (bboxes ! (1 + i * NUM_BOX_ELEMENT + 4)) (bboxes ! (1 + position * NUM_BOX_ELEMENT + 4)) \<or>
      feq (bboxes ! (1 + i * NUM_BOX_ELEMENT + 4)) (bboxes ! (1 + position * NUM_BOX_ELEMENT + 4)) \<and>
      position < i) \<and>
     fgt (box_iou (bboxes ! (1 + position * NUM_BOX_ELEMENT))
                  (bboxes ! (1 + position * NUM_BOX_ELEMENT + 1))
                  (bboxes ! (1 + position * NUM_BOX_ELEMENT + 2))
                  (bboxes ! (1 + position * NUM_BOX_ELEMENT + 3))
                  (bboxes ! (1 + i * NUM_BOX_ELEMENT))
                  (bboxes ! (1 + i * NUM_BOX_ELEMENT + 1))
                  (bboxes ! (1 + i * NUM_BOX_ELEMENT + 2))
                  (bboxes ! (1 + i * NUM_BOX_ELEMENT + 3))) threshold"

text \<open>Two rows that differ at most in keep-flags: the counter and elements 0 to 5 of every box agree.\<close>

definition same_boxes :: "float list \<Rightarrow> float list \<Rightarrow> bool" where
  "same_boxes b b' \<longleftrightarrow> length b = length b' \<and> (\<forall>k. k = 0 \<or> k mod 7 \<noteq> 0 \<longrightarrow> b ! k = b' ! k)"

text \<open>
  Rows to evaluate on, each with the counter first; \<open>fround 0.9\<close> is the float
  \<open>0.9f\<close>. \<open>two_boxes\<close>: two boxes of class 0 with confidences 0.9 and 0.8, the second
  covering 60 of the 100 units of the first, so that their IoU is 0.6. \<open>tied_boxes\<close>: the
  same boxes, both with confidence 0.9. \<open>full_row\<close>: a counter of 2000 over the 1024 boxes
  a row has room for, all flagged 1.
\<close>

definition two_boxes :: "float list" where
  "two_boxes = [Finite 2, Finite 0, Finite 0, Finite 10, Finite 10, fround 0.9, Finite 0, Finite 1,
                Finite 0, Finite 0, Finite 10, Finite 6, fround 0.8, Finite 0, Finite 1]"

definition tied_boxes :: "float list" where
  "tied_boxes = [Finite 2, Finite 0, Finite 0, Finite 10, Finite 10, fround 0.9, Finite 0, Finite 1,
                 Finite 0, Finite 0, Finite 10, Finite 6, fround 0.9, Finite 0, Finite 1]"

definition full_row :: "float list" where
  "full_row = Finite 2000 # replicate (7 * 1024) (Finite 1)"






definition identity_matrix :: "float list" where
  "identity_matrix = [Finite 1, Finite 0, Finite 0, Finite 0, Finite 1, Finite 0]"


section \<open>InferController and YoloInferImpl\<close>

text \<open>
  The promises of all jobs, in the order they were made: a promise is its index, and
  holds \<open>None\<close> until \<open>set_value\<close> gives it its value. The \<open>shared_future\<close> a caller
  gets is the same index.
\<close>

type_synonym BoxArray = "Box list"
type_synonym promises = "BoxArray option list"

text \<open>
  \<open>Job\<close>, for an image type \<open>'i\<close> and the type \<open>'m\<close> of \<open>AffineMatrix\<close>. \<open>mono_tensor\<close> is
  the index of the pool slot held and \<open>pro\<close> the promise, each \<open>None\<close> when the pointer
  is null. \<open>job_input\<close> and \<open>job_output\<close> are the fields \<open>input\<close> and \<open>output\<close>. A
  default-constructed job has every field empty.
\<close>

record ('i, 'm) Job =
  job_input :: "'i option"
  job_output :: BoxArray
  additional :: "'m option"
  mono_tensor :: "nat option"
  pro :: "nat option"

definition new_Job :: "('i, 'm) Job" where
  "new_Job = \<lparr>job_input = None, job_output = [], additional = None, mono_tensor = None, pro = None\<rparr>"

text \<open>\<open>std::promise::set_value\<close>: a second value for one promise is an exception.\<close>

definition set_value :: "nat \<Rightarrow> BoxArray \<Rightarrow> promises \<Rightarrow> fault + promises" where
  "set_value p v ps =
     (if p < length ps
      then (case ps ! p of None \<Rightarrow> Inr (ps[p := Some v]) | Some _ \<Rightarrow> Inl PromiseAlreadySatisfied)
      else Inl Undefined)"

datatype NormType = NormType_None | MeanStd | AlphaBeta

datatype ChannelType = ChannelType_None | Invert

text \<open>\<open>Norm\<close>; the fields a factory leaves uninitialised are 0 here.\<close>

record Norm =
  norm_mean :: "float list"
  norm_std :: "float list"
  norm_alpha :: float
  norm_beta :: float
  norm_type :: NormType
  channel_type :: ChannelType

definition Norm_None :: Norm where
  "Norm_None = \<lparr>norm_mean = [Finite 0, Finite 0, Finite 0], norm_std = [Finite 0, Finite 0, Finite 0],
                 norm_alpha = Finite 0, norm_beta = Finite 0,
                 norm_type = NormType_None, channel_type = ChannelType_None\<rparr>"

definition alpha_beta :: "float \<Rightarrow> float \<Rightarrow> ChannelType \<Rightarrow> Norm" where
  "alpha_beta alpha beta ct =
     Norm_None\<lparr>norm_type := AlphaBeta, norm_alpha := alpha, norm_beta := beta, channel_type := ct\<rparr>"




text \<open>
  An object of \<open>YoloInferImpl\<close>: the fields of \<open>InferController\<close>, then its own, named as
  in the source without the trailing underscore. \<open>worker_thread\<close> is \<open>worker_\<close>, true when
  it holds a thread; \<open>cond\<close> records the notifications sent, \<open>joined\<close> counts the calls of
  \<open>join()\<close>, and \<open>logged\<close> is what the object wrote to the log.
\<close>

record ('i, 'm) YoloInferImpl =
  start_param :: "string \<times> int"
  run :: bool
  jobs :: "('i, 'm) Job list"
  worker_thread :: bool
  cond :: "signal list"
  tensor_allocator :: "Tensor MonopolyAllocator option"
  promises :: promises
  joined :: nat
  logged :: log
  input_width :: c_int
  input_height :: c_int
  gpu :: int
  confidence_threshold :: float
  nms_threshold :: float
  stream :: "nat option"
  normalize :: Norm


text \<open>
  \<open>YoloInferImpl::preprocess(job, image)\<close>, with \<open>img\<close> for \<open>image\<close>. From \<open>AutoDevice\<close> on, the function stages
  the image and warps it into the slot's tensor, which it constructs when the slot has
  none, and computes the job's affine matrices: \<open>warp\<close> gives that tensor and those
  matrices for an image and the slot's previous tensor. \<open>during_wait\<close> is what the other
  threads do to the pool while \<open>query\<close> waits.
\<close>

definition preprocess ::
  "('i \<Rightarrow> Tensor option \<Rightarrow> Tensor \<times> 'm)
     \<Rightarrow> (Tensor MonopolyAllocator \<Rightarrow> Tensor MonopolyAllocator)
     \<Rightarrow> ('i, 'm) Job \<Rightarrow> 'i \<Rightarrow> ('i, 'm) YoloInferImpl
     \<Rightarrow> bool \<times> ('i, 'm) Job \<times> ('i, 'm) YoloInferImpl" where
  "preprocess warp during_wait job img st =
     (case tensor_allocator st of
        None \<Rightarrow>
          (False, job, st\<lparr>logged := logged st @ [(Error, ''tensor_allocator_ is nullptr'')]\<rparr>)
      | Some a \<Rightarrow>
          (case query during_wait a of
             (None, a') \<Rightarrow>
               (False, job\<lparr>mono_tensor := None\<rparr>,
                st\<lparr>tensor_allocator := Some a',
                   logged := logged st @ [(Error, ''Tensor allocator query failed.'')]\<rparr>)
           | (Some i, a') \<Rightarrow>
               (let w = warp img (data (datas a' ! i));
                    a'' = a'\<lparr>datas := (datas a')[i := (datas a' ! i)\<lparr>data := Some (fst w)\<rparr>]\<rparr>
                in (True, job\<lparr>mono_tensor := Some i, additional := Some (snd w)\<rparr>,
                    st\<lparr>tensor_allocator := Some a''\<rparr>))))"

text \<open>\<open>InferController::commit(input)\<close>: the future returned and the object afterwards.\<close>

definition commit ::
  "('i \<Rightarrow> Tensor option \<Rightarrow> Tensor \<times> 'm)
     \<Rightarrow> (Tensor MonopolyAllocator \<Rightarrow> Tensor MonopolyAllocator)
     \<Rightarrow> 'i \<Rightarrow> ('i, 'm) YoloInferImpl \<Rightarrow> fault + (nat \<times> ('i, 'm) YoloInferImpl)" where
  "commit warp during_wait img st =
     (let p = length (promises st);
          job = new_Job\<lparr>pro := Some p\<rparr>;
          r = preprocess warp during_wait job img (st\<lparr>promises := promises st @ [None]\<rparr>);
          job' = fst (snd r);
          st' = snd (snd r)
      in if \<not> fst r then
           (case set_value p [] (promises st') of
              Inl e \<Rightarrow> Inl e
            | Inr ps \<Rightarrow> Inr (p, st'\<lparr>promises := ps\<rparr>))
         else Inr (p, st'\<lparr>jobs := jobs st' @ [job'], cond := cond st' @ [NotifyOne]\<rparr>))"

text \<open>A loop whose body may fail: it stops at the first fault.\<close>

fun fold_fault :: "('x \<Rightarrow> 's \<Rightarrow> fault + 's) \<Rightarrow> 'x list \<Rightarrow> 's \<Rightarrow> fault + 's" where
  "fold_fault f [] s = Inr s"
| "fold_fault f (x # xs) s = (case f x s of Inl e \<Rightarrow> Inl e | Inr s' \<Rightarrow> fold_fault f xs s')"

text \<open>
  The body of the first inner loop of \<open>commits\<close>, for input \<open>i\<close>, on the local vectors
  \<open>jobs\<close> (here \<open>js\<close>) and \<open>results\<close> and the object. \<open>during_wait i\<close> is what the other
  threads do to the pool while the \<open>query\<close> for input \<open>i\<close> waits.
\<close>

definition commits_item ::
  "('i \<Rightarrow> Tensor option \<Rightarrow> Tensor \<times> 'm)
     \<Rightarrow> (nat \<Rightarrow> Tensor MonopolyAllocator \<Rightarrow> Tensor MonopolyAllocator)
     \<Rightarrow> 'i list \<Rightarrow> nat
     \<Rightarrow> ('i, 'm) Job list \<times> nat option list \<times> ('i, 'm) YoloInferImpl
     \<Rightarrow> fault + (('i, 'm) Job list \<times> nat option list \<times> ('i, 'm) YoloInferImpl)" where
  "commits_item warp during_wait inputs i s =
     (let js = fst s; results = fst (snd s); st = snd (snd s);
          p = length (promises st);
          job = (js ! i)\<lparr>pro := Some p\<rparr>;
          r = preprocess warp (during_wait i) job (inputs ! i) (st\<lparr>promises := promises st @ [None]\<rparr>);
          job' = fst (snd r);
          st' = snd (snd r)
      in if \<not> fst r then
           (case set_value p [] (promises st') of
              Inl e \<Rightarrow> Inl e
            | Inr ps \<Rightarrow> Inr (js[i := job'], results[i := Some p], st'\<lparr>promises := ps\<rparr>))
         else Inr (js[i := job'], results[i := Some p], st'))"

text \<open>One epoch of \<open>commits\<close>: the inputs from \<open>begin\<close> (here \<open>ibegin\<close>) to \<open>end\<close>, then their jobs, all of them, into the queue.\<close>

definition commits_epoch ::
  "('i \<Rightarrow> Tensor option \<Rightarrow> Tensor \<times> 'm)
     \<Rightarrow> (nat \<Rightarrow> Tensor MonopolyAllocator \<Rightarrow> Tensor MonopolyAllocator)
     \<Rightarrow> 'i list \<Rightarrow> nat \<Rightarrow> nat
     \<Rightarrow> ('i, 'm) Job list \<times> nat option list \<times> ('i, 'm) YoloInferImpl
     \<Rightarrow> fault + (('i, 'm) Job list \<times> nat option list \<times> ('i, 'm) YoloInferImpl)" where
  "commits_epoch warp during_wait inputs batch_size epoch s =
     (let ibegin = epoch * batch_size;
          iend = min (length inputs) (ibegin + batch_size)
      in case fold_fault (commits_item warp during_wait inputs) [ibegin..<iend] s of
           Inl e \<Rightarrow> Inl e
         | Inr (js, results, st) \<Rightarrow>
             Inr (js, results,
                  st\<lparr>jobs := jobs st @ map (\<lambda>i. js ! i) [ibegin..<iend],
                     cond := cond st @ [NotifyOne]\<rparr>))"

text \<open>
  \<open>InferController::commits(inputs)\<close>: the futures returned and the object afterwards.
  Without an allocator the call dereferences null; with no inputs, or a pool of capacity
  0, it divides by zero.
\<close>

definition commits ::
  "('i \<Rightarrow> Tensor option \<Rightarrow> Tensor \<times> 'm)
     \<Rightarrow> (nat \<Rightarrow> Tensor MonopolyAllocator \<Rightarrow> Tensor MonopolyAllocator)
     \<Rightarrow> 'i list \<Rightarrow> ('i, 'm) YoloInferImpl
     \<Rightarrow> fault + (nat option list \<times> ('i, 'm) YoloInferImpl)" where
  "commits warp during_wait inputs st =
     (case tensor_allocator st of
        None \<Rightarrow> Inl Undefined
      | Some a \<Rightarrow>
          (let batch_size = nat (min (int (length inputs)) (capacity a)) in
           if batch_size = 0 then Inl Undefined
           else
             (let nepoch = (length inputs + batch_size - 1) div batch_size in
              case fold_fault (commits_epoch warp during_wait inputs batch_size) [0..<nepoch]
                     (replicate (length inputs) new_Job, replicate (length inputs) None, st) of
                Inl e \<Rightarrow> Inl e
              | Inr (js, results, st') \<Rightarrow> Inr (results, st'))))"

text \<open>The clean-up loop of \<open>stop\<close> over the queue, front first.\<close>

fun drain :: "('i, 'm) Job list \<Rightarrow> promises \<Rightarrow> fault + promises" where
  "drain [] ps = Inr ps"
| "drain (item # rest) ps =
     (case pro item of
        None \<Rightarrow> drain rest ps
      | Some p \<Rightarrow> (case set_value p [] ps of Inl e \<Rightarrow> Inl e | Inr ps' \<Rightarrow> drain rest ps'))"

text \<open>
  \<open>worker_->join(); worker_.reset()\<close>. The worker thread, which finds \<open>run_\<close> false, leaves
  its loop, drops the stream and the allocator, and ends; the join returns then.
\<close>

definition join_worker :: "('i, 'm) YoloInferImpl \<Rightarrow> ('i, 'm) YoloInferImpl" where
  "join_worker st =
     st\<lparr>stream := None, tensor_allocator := None, worker_thread := False, joined := joined st + 1\<rparr>"

text \<open>\<open>InferController::stop()\<close>.\<close>

definition stop :: "('i, 'm) YoloInferImpl \<Rightarrow> fault + ('i, 'm) YoloInferImpl" where
  "stop st =
     (let st1 = st\<lparr>run := False, cond := cond st @ [NotifyAll]\<rparr> in
      case drain (jobs st1) (promises st1) of
        Inl e \<Rightarrow> Inl e
      | Inr ps \<Rightarrow>
          (let st2 = st1\<lparr>jobs := [], promises := ps\<rparr>
           in Inr (if worker_thread st2 then join_worker st2 else st2)))"

text \<open>
  \<open>InferController::get_jobs_and_wait(fetch_jobs, max_size)\<close>: \<open>None\<close> while the call
  blocks (running, nothing queued), else the result, the jobs fetched and the object.
\<close>

definition get_jobs_and_wait ::
  "int \<Rightarrow> ('i, 'm) YoloInferImpl
     \<Rightarrow> (bool \<times> ('i, 'm) Job list \<times> ('i, 'm) YoloInferImpl) option" where
  "get_jobs_and_wait max_size st =
     (if run st \<and> jobs st = [] then None
      else if \<not> run st then Some (False, [], st)
      else Some (True, take (nat max_size) (jobs st), st\<lparr>jobs := drop (nat max_size) (jobs st)\<rparr>))"

text \<open>
  The first loop of the worker over a fetched batch, for one job: the job's slot and its
  tensor are dereferenced, the tensor is copied into the batch input, and the slot is
  released.
\<close>

definition worker_release :: "('i, 'm) Job \<Rightarrow> ('i, 'm) YoloInferImpl \<Rightarrow> fault + ('i, 'm) YoloInferImpl" where
  "worker_release job st =
     (case (mono_tensor job, tensor_allocator st) of
        (Some i, Some a) \<Rightarrow>
          if i < length (datas a) \<and> data (datas a ! i) \<noteq> None
          then Inr (st\<lparr>tensor_allocator := Some (release_one i a)\<rparr>)
          else Inl Undefined
      | _ \<Rightarrow> Inl Undefined)"

text \<open>
  The last loop of the worker, for the job at index \<open>ibatch\<close> of the batch: \<open>rows ibatch\<close>
  is that image's row of the output array on the host, after the forward pass, the two
  kernels and \<open>to_cpu()\<close>.
\<close>

definition worker_fulfil ::
  "(nat \<Rightarrow> float list) \<Rightarrow> ('i, 'm) Job list \<Rightarrow> nat \<Rightarrow> ('i, 'm) YoloInferImpl
     \<Rightarrow> fault + ('i, 'm) YoloInferImpl" where
  "worker_fulfil rows fetch_jobs ibatch st =
     (let job = fetch_jobs ! ibatch;
          image_based_boxes = collect_boxes (rows ibatch) (job_output job)
      in case pro job of
           None \<Rightarrow> Inl Undefined
         | Some p \<Rightarrow>
             (case set_value p image_based_boxes (promises st) of
                Inl e \<Rightarrow> Inl e
              | Inr ps \<Rightarrow> Inr (st\<lparr>promises := ps\<rparr>)))"

text \<open>
  One turn of the worker's loop: \<open>None\<close> while \<open>get_jobs_and_wait\<close> blocks, else whether
  the loop goes on, and the object.
\<close>

definition worker_turn ::
  "(nat \<Rightarrow> float list) \<Rightarrow> int \<Rightarrow> ('i, 'm) YoloInferImpl
     \<Rightarrow> (fault + (bool \<times> ('i, 'm) YoloInferImpl)) option" where
  "worker_turn rows max_batch_size st =
     (case get_jobs_and_wait max_batch_size st of
        None \<Rightarrow> None
      | Some (False, fetch_jobs, st1) \<Rightarrow> Some (Inr (False, st1))
      | Some (True, fetch_jobs, st1) \<Rightarrow>
          Some (case fold_fault worker_release fetch_jobs st1 of
                  Inl e \<Rightarrow> Inl e
                | Inr st2 \<Rightarrow>
                    (case fold_fault (worker_fulfil rows fetch_jobs) [0..<length fetch_jobs] st2 of
                       Inl e \<Rightarrow> Inl e
                     | Inr st3 \<Rightarrow> Inr (True, st3))))"









definition warp0 :: "unit \<Rightarrow> Tensor option \<Rightarrow> Tensor \<times> unit" where
  "warp0 img old = (case old of None \<Rightarrow> (fresh16, ()) | Some t \<Rightarrow> (t, ()))"

definition pool_of_two :: "Tensor MonopolyAllocator" where
  "pool_of_two = \<lparr>datas = [\<lparr>data = None, available = True\<rparr>, \<lparr>data = None, available = True\<rparr>],
                  capacity = 2, num_available = 2, num_wait_thread = 0, pool_run = True,
                  cv = [], cv_exit = []\<rparr>"

definition serving :: "(unit, unit) YoloInferImpl" where
  "serving =
     \<lparr>start_param = (''yolov5s.trtmodel'', 0), run = True, jobs = [], worker_thread = True,
      cond = [], tensor_allocator = Some pool_of_two, promises = [], joined = 0, logged = [],
      input_width = 640, input_height = 640, gpu = 0, confidence_threshold = Finite 0.25,
      nms_threshold = Finite 0.5, stream = Some 0,
      normalize = alpha_beta (Finite (8421505 / 2147483648)) (Finite 0) Invert\<rparr>"

text \<open>The promises of the jobs in a queue, front first.\<close>

fun queued_promises :: "('i, 'm) Job list \<Rightarrow> nat list" where
  "queued_promises [] = []"
| "queued_promises (item # rest) =
     (case pro item of None \<Rightarrow> queued_promises rest | Some p \<Rightarrow> p # queued_promises rest)"

text \<open>
  Every queued job has a promise of its own, made and not yet fulfilled: what holds of
  the queue as long as jobs enter it through \<open>commit\<close>.
\<close>

definition queue_pending :: "('i, 'm) YoloInferImpl \<Rightarrow> bool" where
  "queue_pending st \<longleftrightarrow>
     distinct (queued_promises (jobs st)) \<and>
     (\<forall>p \<in> set (queued_promises (jobs st)). p < length (promises st) \<and> promises st ! p = None)"

text \<open>
  States to evaluate on. \<open>two_queued\<close> is \<open>serving\<close> after two calls of \<open>commit\<close>: both
  slots of the pool are taken and two jobs wait in the queue. \<open>stopped\<close> is \<open>two_queued\<close>
  after \<open>stop()\<close>. \<open>three_committed\<close> is \<open>serving\<close> after \<open>commits\<close> of three images while
  the worker releases nothing: the third \<open>query\<close> timed out.
\<close>

definition exhausted_pool :: "Tensor MonopolyAllocator" where
  "exhausted_pool =
     pool_of_two\<lparr>datas := [\<lparr>data = Some fresh16, available = False\<rparr>,
                           \<lparr>data = Some fresh16, available = False\<rparr>],
                 num_available := 0\<rparr>"

definition two_queued :: "(unit, unit) YoloInferImpl" where
  "two_queued =
     serving\<lparr>jobs := [new_Job\<lparr>additional := Some (), mono_tensor := Some 0, pro := Some 0\<rparr>,
                      new_Job\<lparr>additional := Some (), mono_tensor := Some 1, pro := Some 1\<rparr>],
             cond := [NotifyOne, NotifyOne],
             tensor_allocator := Some exhausted_pool,
             promises := [None, None]\<rparr>"

definition stopped :: "(unit, unit) YoloInferImpl" where
  "stopped =
     two_queued\<lparr>run := False, jobs := [], worker_thread := False,
                cond := [NotifyOne, NotifyOne, NotifyAll], tensor_allocator := None,
                promises := [Some [], Some []], joined := 1, stream := None\<rparr>"

definition three_committed :: "(unit, unit) YoloInferImpl" where
  "three_committed =
     two_queued\<lparr>jobs := jobs two_queued @ [new_Job\<lparr>pro := Some 2\<rparr>],
                tensor_allocator := Some (exhausted_pool\<lparr>cv_exit := [NotifyOne]\<rparr>),
                promises := [None, None, Some []],
                logged := [(Error, ''Tensor allocator query failed.'')]\<rparr>"

section \<open>The pool keeps its capacity\<close>

lemma find_if_available_Some:
  "find_if_available ds = Some i \<Longrightarrow> i < length ds \<and> available (ds ! i)"
  by (induction ds arbitrary: i) (auto split: if_splits)

lemma find_if_available_None:
  "find_if_available ds = None \<longleftrightarrow> filter available ds = []"
  by (induction ds) auto

lemma filter_available_update_False:
  "i < length ds \<Longrightarrow> available (ds ! i) \<Longrightarrow>
   int (length (filter available (ds[i := (ds ! i)\<lparr>available := False\<rparr>]))) =
   int (length (filter available ds)) - 1"
proof (induction ds arbitrary: i)
  case Nil then show ?case by simp
next
  case (Cons d ds)
  show ?case
  proof (cases i)
    case 0 with Cons.prems show ?thesis by simp
  next
    case (Suc j)
    with Cons.prems have "j < length ds" "available (ds ! j)" by simp_all
    from Cons.IH[OF this] Suc show ?thesis by simp
  qed
qed

lemma filter_available_update_True:
  "i < length ds \<Longrightarrow> \<not> available (ds ! i) \<Longrightarrow>
   int (length (filter available (ds[i := (ds ! i)\<lparr>available := True\<rparr>]))) =
   int (length (filter available ds)) + 1"
proof (induction ds arbitrary: i)
  case Nil then show ?case by simp
next
  case (Cons d ds)
  show ?case
  proof (cases i)
    case 0 with Cons.prems show ?thesis by simp
  next
    case (Suc j)
    with Cons.prems have "j < length ds" "\<not> available (ds ! j)" by simp_all
    from Cons.IH[OF this] Suc show ?thesis by simp
  qed
qed

lemma pool_inv_new:
  "new_MonopolyAllocator sz = Inr a \<Longrightarrow> pool_inv a \<and> capacity a = sz"
  by (auto simp: new_MonopolyAllocator_def pool_inv_def num_flagged_available_def split: if_splits)

lemma pool_inv_query_take: "pool_inv s \<Longrightarrow> pool_inv (snd (query_take s))"
  by (auto simp: query_take_def pool_inv_def num_flagged_available_def
        filter_available_update_False dest!: find_if_available_Some split: option.splits)

lemma capacity_query_take: "capacity (snd (query_take s)) = capacity s"
  by (auto simp: query_take_def split: option.splits)

lemma pool_inv_release_one: "pool_inv s \<Longrightarrow> pool_inv (release_one i s)"
  by (auto simp: release_one_def pool_inv_def num_flagged_available_def
        filter_available_update_True)

lemma pool_inv_shutdown: "pool_inv s \<Longrightarrow> pool_inv (shutdown s)"
  by (simp add: shutdown_def pool_inv_def num_flagged_available_def)

lemma pool_inv_query:
  assumes "\<And>t. pool_inv t \<Longrightarrow> pool_inv (w t) \<and> capacity (w t) = capacity t" and "pool_inv s"
  shows "pool_inv (snd (query w s)) \<and> capacity (snd (query w s)) = capacity s"
proof -
  let ?s1 = "s\<lparr>num_wait_thread := num_wait_thread s + 1\<rparr>"
  have i1: "pool_inv ?s1" using assms(2) by (simp add: pool_inv_def num_flagged_available_def)
  have i2: "pool_inv (w ?s1)" "capacity (w ?s1) = capacity s" using assms(1)[OF i1] by simp_all
  let ?s3 = "(w ?s1)\<lparr>num_wait_thread := num_wait_thread (w ?s1) - 1,
                     cv_exit := cv_exit (w ?s1) @ [NotifyOne]\<rparr>"
  have i3: "pool_inv ?s3" "capacity ?s3 = capacity s"
    using i2 by (simp_all add: pool_inv_def num_flagged_available_def)
  show ?thesis
    using assms(2) i3 pool_inv_query_take[OF i3(1)] pool_inv_query_take[OF assms(2)]
    by (simp add: query_def Let_def capacity_query_take)
qed

lemma exec_op_inv:
  "pool_inv s \<Longrightarrow> pool_inv (exec_op op s) \<and> capacity (exec_op op s) = capacity s"
proof (induction op arbitrary: s)
  case (Query ws)
  have w: "pool_inv t \<Longrightarrow> pool_inv (fold (\<lambda>f. f) (map exec_op ws) t)
          \<and> capacity (fold (\<lambda>f. f) (map exec_op ws) t) = capacity t" for t :: "'a MonopolyAllocator"
    using Query.IH
  proof (induction ws arbitrary: t)
    case Nil then show ?case by simp
  next
    case (Cons a ws)
    have a: "pool_inv (exec_op a t)" "capacity (exec_op a t) = capacity t"
      using Cons.prems(2)[of a t] Cons.prems(1) by simp_all
    have "pool_inv (fold (\<lambda>f. f) (map exec_op ws) (exec_op a t))
          \<and> capacity (fold (\<lambda>f. f) (map exec_op ws) (exec_op a t)) = capacity (exec_op a t)"
      by (rule Cons.IH[OF a(1)]) (use Cons.prems(2) in auto)
    then show ?case using a by simp
  qed
  show ?case using pool_inv_query[of "\<lambda>s1. fold (\<lambda>f. f) (map exec_op ws) s1" s] w Query.prems
    by simp
next
  case (Release i)
  then show ?case by (simp add: pool_inv_release_one) (simp add: release_one_def)
next
  case Shutdown
  then show ?case by (simp add: pool_inv_shutdown) (simp add: shutdown_def)
qed

lemma run_ops_inv:
  "pool_inv s \<Longrightarrow> pool_inv (run_ops ops s) \<and> capacity (run_ops ops s) = capacity s"
  unfolding run_ops_def
proof (induction ops arbitrary: s)
  case Nil then show ?case by simp
next
  case (Cons a ops)
  from exec_op_inv[OF Cons.prems, of a] Cons.IH[of "exec_op a s"] show ?case by simp
qed

lemma in_use_plus_available:
  "num_flagged_available s + num_in_use s = int (length (datas s))"
  unfolding num_flagged_available_def num_in_use_def
  using sum_length_filter_compl[of available "datas s"] by simp

lemma pool_inv_nonneg: "pool_inv s \<Longrightarrow> 0 \<le> num_available s \<and> num_available s \<le> capacity s"
proof -
  assume "pool_inv s"
  then have "num_available s = int (length (filter available (datas s)))"
    and "int (length (datas s)) = capacity s"
    by (simp_all add: pool_inv_def num_flagged_available_def)
  moreover have "int (length (filter available (datas s))) \<le> int (length (datas s))"
    by (rule iffD2[OF of_nat_le_iff]) (rule length_filter_le)
  ultimately show ?thesis by linarith
qed

lemma pool_inv_find:
  "pool_inv s \<Longrightarrow> num_available s \<noteq> 0 \<Longrightarrow> \<exists>i. find_if_available (datas s) = Some i"
proof -
  assume a: "pool_inv s" "num_available s \<noteq> 0"
  then have "filter available (datas s) \<noteq> []"
    by (auto simp: pool_inv_def num_flagged_available_def)
  then have "find_if_available (datas s) \<noteq> None" by (simp add: find_if_available_None)
  then show ?thesis by auto
qed

lemma query_take_Some:
  "fst (query_take s) = Some i \<Longrightarrow>
     i < length (datas s) \<and> available (datas s ! i) \<and>
     snd (query_take s) = s\<lparr>datas := (datas s)[i := (datas s ! i)\<lparr>available := False\<rparr>],
                            num_available := num_available s - 1\<rparr>"
  by (auto simp: query_take_def dest: find_if_available_Some split: option.splits)

lemma query_take_None:
  "pool_inv s \<Longrightarrow> fst (query_take s) = None \<longleftrightarrow> num_available s = 0"
proof
  assume "pool_inv s" "fst (query_take s) = None"
  then show "num_available s = 0"
    using pool_inv_find[of s] by (auto simp: query_take_def split: option.splits)
next
  assume "pool_inv s" "num_available s = 0"
  then have "filter available (datas s) = []"
    by (simp add: pool_inv_def num_flagged_available_def)
  then show "fst (query_take s) = None"
    by (simp add: query_take_def find_if_available_None[symmetric])
qed

lemma pool_inv_before_take:
  assumes "\<And>t. pool_inv t \<Longrightarrow> pool_inv (w t)" and "pool_inv s"
  shows "pool_inv (before_take w s)"
proof -
  have "pool_inv (s\<lparr>num_wait_thread := num_wait_thread s + 1\<rparr>)"
    using assms(2) by (simp add: pool_inv_def num_flagged_available_def)
  from assms(1)[OF this] assms(2) show ?thesis
    by (simp add: before_take_def Let_def pool_inv_def num_flagged_available_def)
qed

lemma capacity_before_take:
  assumes "\<And>t. pool_inv t \<Longrightarrow> capacity (w t) = capacity t" and "pool_inv s"
  shows "capacity (before_take w s) = capacity s"
proof -
  have "pool_inv (s\<lparr>num_wait_thread := num_wait_thread s + 1\<rparr>)"
    using assms(2) by (simp add: pool_inv_def num_flagged_available_def)
  from assms(1)[OF this] show ?thesis
    by (simp add: before_take_def Let_def)
qed

lemma query_via_before_take:
  "query w s =
     (if \<not> pool_run s then (None, s)
      else if num_available s = 0 \<and>
              (num_available (before_take w s) \<le> 0 \<or> \<not> pool_run (before_take w s))
           then (None, before_take w s)
      else query_take (before_take w s))"
  by (auto simp: query_def before_take_def Let_def)

lemma query_None_iff:
  assumes "\<And>t. pool_inv t \<Longrightarrow> pool_inv (w t)" and "pool_inv s"
  shows "fst (query w s) = None \<longleftrightarrow>
           \<not> pool_run s \<or>
           (num_available s = 0 \<and>
              (num_available (before_take w s) = 0 \<or> \<not> pool_run (before_take w s)))"
proof -
  have b: "pool_inv (before_take w s)" by (rule pool_inv_before_take[OF assms])
  have nn: "0 \<le> num_available (before_take w s)" using pool_inv_nonneg[OF b] by simp
  have s0: "num_available s \<noteq> 0 \<Longrightarrow> before_take w s = s" by (simp add: before_take_def)
  show ?thesis
    using query_take_None[OF b] nn s0 by (auto simp: query_via_before_take)
qed

lemma query_Some:
  assumes "fst (query w s) = Some i"
  shows "i < length (datas (before_take w s)) \<and> available (datas (before_take w s) ! i) \<and>
         snd (query w s) = (before_take w s)
            \<lparr>datas := (datas (before_take w s))[i := (datas (before_take w s) ! i)\<lparr>available := False\<rparr>],
             num_available := num_available (before_take w s) - 1\<rparr>"
  using assms query_take_Some[of "before_take w s" i]
  by (auto simp: query_via_before_take split: if_splits)

lemma run_ops_pool_inv: "pool_inv s \<Longrightarrow> pool_inv (run_ops ops s)"
  using run_ops_inv by blast

text \<open>
  Claim C5. For a pool built by the constructor with capacity \<open>sz\<close>, in every state \<open>s\<close>
  reached by any operations of its threads: the available counter plus the number of
  slots in use is the capacity, the counter is the number of slots flagged available,
  and the capacity and the number of slots are still \<open>sz\<close>. A \<open>query\<close> on such a state
  (whatever the other threads do while it waits) leaves the capacity and the number of
  slots unchanged, and finds the same sum and number of slots when its wait is over.
  It returns null exactly when the pool was shut down at entry, or when nothing was
  free at entry and, once the wait is over, nothing is free (the wait timed out or the
  freed slot is gone again) or the pool is shut down. When it returns slot \<open>i\<close>, that
  slot was flagged available, and the allocator differs from the one \<open>query\<close> saw
  before taking it only in that flag, now false, and in the counter, one less.
\<close>

theorem pool_capacity_fixed:
  fixes a :: "'a MonopolyAllocator"
  assumes "new_MonopolyAllocator sz = Inr a"
  shows "(let s = run_ops ops a;
              pre = before_take (run_ops ws) s;
              r = fst (query (run_ops ws) s);
              s' = snd (query (run_ops ws) s)
          in num_available s + num_in_use s = capacity s \<and>
             num_available s = num_flagged_available s \<and>
             capacity s = sz \<and> length (datas s) = nat sz \<and>
             num_available pre + num_in_use pre = sz \<and> length (datas pre) = nat sz \<and>
             capacity s' = sz \<and> length (datas s') = nat sz \<and>
             (r = None \<longleftrightarrow>
                \<not> pool_run s \<or>
                (num_available s = 0 \<and> (num_available pre = 0 \<or> \<not> pool_run pre))) \<and>
             (\<forall>i. r = Some i \<longrightarrow>
                i < length (datas pre) \<and> available (datas pre ! i) \<and>
                s' = pre\<lparr>datas := (datas pre)[i := (datas pre ! i)\<lparr>available := False\<rparr>],
                         num_available := num_available pre - 1\<rparr>))"
proof -
  define s where "s = run_ops ops a"
  define s' where "s' = snd (query (run_ops ws) s)"
  have a: "pool_inv a" "capacity a = sz" using pool_inv_new[OF assms] by simp_all
  have s: "pool_inv s" "capacity s = sz" using run_ops_inv[OF a(1), of ops] a(2) by (simp_all add: s_def)
  have w: "\<And>t :: 'a MonopolyAllocator. pool_inv t \<Longrightarrow> pool_inv (run_ops ws t) \<and> capacity (run_ops ws t) = capacity t"
    by (rule run_ops_inv)
  have s': "pool_inv s'" "capacity s' = sz"
    using pool_inv_query[of "run_ops ws" s, OF w s(1)] s(2) by (simp_all add: s'_def)
  have len: "length (datas s) = nat sz" "length (datas s') = nat sz"
    using s s' by (auto simp: pool_inv_def)
  have sum: "num_available s + num_in_use s = capacity s" "num_available s = num_flagged_available s"
    using s(1) in_use_plus_available[of s] by (simp_all add: pool_inv_def)
  have pre: "pool_inv (before_take (run_ops ws) s)"
    by (rule pool_inv_before_take[OF run_ops_pool_inv s(1)])
  have cpre: "capacity (before_take (run_ops ws) s) = sz"
    using capacity_before_take[of "run_ops ws" s] w s by simp
  have mid: "num_available (before_take (run_ops ws) s) + num_in_use (before_take (run_ops ws) s) = sz"
    "length (datas (before_take (run_ops ws) s)) = nat sz"
    using pre cpre in_use_plus_available[of "before_take (run_ops ws) s"]
    by (auto simp: pool_inv_def)
  have none: "fst (query (run_ops ws) s) = None \<longleftrightarrow>
                \<not> pool_run s \<or>
                (num_available s = 0 \<and> (num_available (before_take (run_ops ws) s) = 0
                    \<or> \<not> pool_run (before_take (run_ops ws) s)))"
    by (rule query_None_iff[OF run_ops_pool_inv s(1)])
  have some: "\<forall>i. fst (query (run_ops ws) s) = Some i \<longrightarrow>
                i < length (datas (before_take (run_ops ws) s)) \<and>
                available (datas (before_take (run_ops ws) s) ! i) \<and>
                s' = (before_take (run_ops ws) s)\<lparr>datas := (datas (before_take (run_ops ws) s))
                          [i := (datas (before_take (run_ops ws) s) ! i)\<lparr>available := False\<rparr>],
                         num_available := num_available (before_take (run_ops ws) s) - 1\<rparr>"
    unfolding s'_def using query_Some[of "run_ops ws" s] by blast
  show ?thesis
    unfolding Let_def s_def[symmetric] s'_def[symmetric]
    using sum s(2) len mid s'(2) none some by blast
qed

text \<open>
  Claim C10. Releasing a slot whose flag says available changes nothing in the allocator:
  the flag stays true, the counter is not incremented and no notification is sent.
  Releasing a slot twice is releasing it once. In every state reached from a constructed
  pool, by any operations (repeated releases of one slot among them), the available
  counter is at most the capacity, which is still the constructor's.
\<close>

theorem release_available_noop:
  fixes s :: "'a MonopolyAllocator" and a :: "'b MonopolyAllocator"
  shows "(available (datas s ! i) \<longrightarrow> release_one i s = s) \<and>
         release_one i (release_one i s) = release_one i s \<and>
         (new_MonopolyAllocator sz = Inr a \<longrightarrow>
            num_available (run_ops ops a) \<le> capacity (run_ops ops a) \<and>
            capacity (run_ops ops a) = sz)"
proof -
  have 1: "available (datas s ! i) \<longrightarrow> release_one i s = s" by (simp add: release_one_def)
  have 2: "release_one i (release_one i s) = release_one i s" by (simp add: release_one_def)
  have 3: "num_available (run_ops ops a) \<le> capacity (run_ops ops a) \<and> capacity (run_ops ops a) = sz"
    if "new_MonopolyAllocator sz = Inr a"
    using pool_inv_new[OF that] run_ops_inv[of a ops] pool_inv_nonneg[of "run_ops ops a"] by simp
  from 1 2 3 show ?thesis by blast
qed

lemma new2: "new_MonopolyAllocator 2 = Inr pool2"
  by (simp add: new_MonopolyAllocator_def pool2_def numeral_2_eq_2)


lemmas pool_eval = run_ops_def query_def query_take_def release_one_def shutdown_def
  pool2_def before_take_def num_in_use_def num_flagged_available_def Let_def

lemma exhausted2:
  "run_ops [Query [], Query []] pool2 =
     \<lparr>datas = [\<lparr>data = None, available = False\<rparr>, \<lparr>data = None, available = False\<rparr>],
      capacity = 2, num_available = 0, num_wait_thread = 0, pool_run = True,
      cv = [], cv_exit = []\<rparr>"
  by (simp add: pool_eval)

text \<open>
  The theorem at a pool of two slots, both taken: a query waits, slot 1 is released
  during the wait, and the query hands out slot 1.
\<close>

theorem pool_capacity_fixed_witness:
  "new_MonopolyAllocator 2 = Inr pool2 \<and>
   num_available (run_ops [Query [], Query []] pool2) = 0 \<and>
   num_in_use (run_ops [Query [], Query []] pool2) = 2 \<and>
   capacity (run_ops [Query [], Query []] pool2) = 2 \<and>
   fst (query (run_ops [Release 1]) (run_ops [Query [], Query []] pool2)) = Some 1 \<and>
   num_available (snd (query (run_ops [Release 1]) (run_ops [Query [], Query []] pool2))) = 0 \<and>
   capacity (snd (query (run_ops [Release 1]) (run_ops [Query [], Query []] pool2))) = 2"
proof -
  have q: "fst (query (run_ops [Release 1]) (run_ops [Query [], Query []] pool2)) = Some 1"
    unfolding exhausted2 by (simp add: pool_eval)
  have p: "num_available (before_take (run_ops [Release 1]) (run_ops [Query [], Query []] pool2)) = 1"
    unfolding exhausted2 by (simp add: pool_eval)
  have u: "num_in_use (run_ops [Query [], Query []] pool2) = 2"
    unfolding exhausted2 by (simp add: pool_eval)
  have z: "num_available (run_ops [Query [], Query []] pool2) = 0"
    unfolding exhausted2 by simp
  note t = pool_capacity_fixed[OF new2, of "[Query [], Query []]" "[Release 1]", unfolded Let_def]
  have c: "capacity (run_ops [Query [], Query []] pool2) = 2"
    and c': "capacity (snd (query (run_ops [Release 1]) (run_ops [Query [], Query []] pool2))) = 2"
    using t by blast+
  have "snd (query (run_ops [Release 1]) (run_ops [Query [], Query []] pool2)) =
        (before_take (run_ops [Release 1]) (run_ops [Query [], Query []] pool2))
          \<lparr>datas := (datas (before_take (run_ops [Release 1]) (run_ops [Query [], Query []] pool2)))
               [1 := (datas (before_take (run_ops [Release 1]) (run_ops [Query [], Query []] pool2)) ! 1)
                       \<lparr>available := False\<rparr>],
            num_available :=
              num_available (before_take (run_ops [Release 1]) (run_ops [Query [], Query []] pool2)) - 1\<rparr>"
    using t q by blast
  then have n': "num_available (snd (query (run_ops [Release 1]) (run_ops [Query [], Query []] pool2))) = 0"
    using p by simp
  from new2 z u c q n' c' show ?thesis by blast
qed

text \<open>The theorem at the pool of two slots: slot 0 is taken once and released three times.\<close>

theorem release_available_noop_witness:
  "available (datas pool2 ! 0) \<and> release_one 0 pool2 = pool2 \<and>
   new_MonopolyAllocator 2 = Inr pool2 \<and>
   num_available (run_ops [Query [], Release 0, Release 0, Release 0] pool2) = 2 \<and>
   capacity (run_ops [Query [], Release 0, Release 0, Release 0] pool2) = 2"
proof -
  have a: "available (datas pool2 ! 0)" by (simp add: pool2_def)
  have n: "num_available (run_ops [Query [], Release 0, Release 0, Release 0] pool2) = 2"
    by (simp add: pool_eval)
  show ?thesis
    using release_available_noop[of pool2 0 2 pool2 "[Query [], Release 0, Release 0, Release 0]"]
      a n new2
    by simp
qed

section \<open>Resizing and bounded copies\<close>

lemmas tensor_eval = new_Tensor_def resize_def adajust_memory_by_update_dims_or_type_def
  numel_def element_size_def get_device_def check_device_id_def new_MixMemory_def
  MixMemory_gpu_def release_gpu_def to_gpu_def copy_from_gpu_def memcpy_def env0_def Let_def

lemma fresh16_constructed: "new_Tensor env0 [1, 1, 2, 2] = Inr fresh16"
  by (simp add: tensor_eval fresh16_def)

lemma device64_constructed:
  "new_Tensor env0 [2, 8] = Inr t \<Longrightarrow> to_gpu True t = Inr device64"
  by (auto simp: tensor_eval device64_def)




text \<open>
  Claim C7, as amended. A \<open>copy_from_gpu\<close> whose byte offset is at least the tensor's
  byte size, or whose byte count exceeds the bytes remaining past the offset, returns
  (it is not fatal), logs exactly one message, at level Error, and copies nothing. A
  tensor whose tag is \<open>Device\<close> or \<open>Host\<close> is returned unchanged. A tensor whose tag is
  \<open>Init\<close> is first materialised on the device, before the bounds are checked: its tag
  becomes \<open>Device\<close> and its device buffer is what \<open>MixMemory::gpu(bytes)\<close> leaves, and
  nothing else changes.
\<close>

theorem copy_from_gpu_out_of_range:
  assumes "offset * scast element_size \<ge> bytes t \<or>
           num_element * scast element_size > bytes t - offset * scast element_size"
  shows "\<exists>msg. copy_from_gpu env offset src num_element dev t =
           Inr (if head t = Init
                then t\<lparr>head := Device, tensor_data := MixMemory_gpu (bytes t) (tensor_data t)\<rparr>
                else t, [(Error, msg)])"
  using assms
  by (auto simp: copy_from_gpu_def to_gpu_def Let_def)

text \<open>
  The theorem at the 64-byte device tensor: two elements at element offset 15 do not
  fit, and the tensor is unchanged; one element fits and is copied.
\<close>

theorem copy_from_gpu_out_of_range_witness:
  "bytes device64 - 15 * scast element_size < 2 * scast element_size \<and>
   (\<exists>msg. copy_from_gpu env0 15 (Some [1, 2, 3, 4, 5, 6, 7, 8]) 2 (-1) device64 =
      Inr (device64, [(Error, msg)])) \<and>
   copy_from_gpu env0 15 (Some [1, 2, 3, 4]) 1 (-1) device64 =
      Inr (device64\<lparr>tensor_data := (tensor_data device64)
              \<lparr>mem_gpu := Some (replicate 60 0 @ [1, 2, 3, 4])\<rparr>\<rparr>, [])"
proof -
  have h: "bytes device64 - 15 * scast element_size < 2 * scast element_size"
    by (simp add: device64_def element_size_def)
  have d: "head device64 \<noteq> Init" by (simp add: device64_def)
  have c: "copy_from_gpu env0 15 (Some [1, 2, 3, 4]) 1 (-1) device64 =
      Inr (device64\<lparr>tensor_data := (tensor_data device64)
              \<lparr>mem_gpu := Some (replicate 60 0 @ [1, 2, 3, 4])\<rparr>\<rparr>, [])"
    by (simp add: tensor_eval device64_def)
  show ?thesis
    using copy_from_gpu_out_of_range[of device64 15 2 env0 "Some [1, 2, 3, 4, 5, 6, 7, 8]" "-1"] h d c
    by simp
qed

text \<open>
  Claim C7 as stated fails on a freshly constructed tensor: the out-of-range call
  at element offset 4 of the 16-byte tensor logs its error, and the tensor it leaves has
  the tag \<open>Device\<close> and a 16-byte device buffer that it did not have.
\<close>

theorem copy_from_gpu_changes_fresh_tensor:
  "new_Tensor env0 [1, 1, 2, 2] = Inr fresh16 \<and>
   bytes fresh16 \<le> 4 * scast element_size \<and>
   copy_from_gpu env0 4 (Some [1, 2, 3, 4]) 1 (-1) fresh16 =
     Inr (fresh16\<lparr>head := Device,
                   tensor_data := (new_MixMemory 0)\<lparr>mem_gpu := Some (replicate 16 0), mem_gpu_size := 16\<rparr>\<rparr>,
          [(Error, ''Offset location[%lld] >= bytes_[%lld], out of range'')]) \<and>
   fresh16\<lparr>head := Device,
           tensor_data := (new_MixMemory 0)\<lparr>mem_gpu := Some (replicate 16 0), mem_gpu_size := 16\<rparr>\<rparr>
     \<noteq> fresh16"
proof -
  have a: "bytes fresh16 \<le> 4 * scast element_size" by (simp add: fresh16_def element_size_def)
  have b: "copy_from_gpu env0 4 (Some [1, 2, 3, 4]) 1 (-1) fresh16 =
     Inr (fresh16\<lparr>head := Device,
                   tensor_data := (new_MixMemory 0)\<lparr>mem_gpu := Some (replicate 16 0), mem_gpu_size := 16\<rparr>\<rparr>,
          [(Error, ''Offset location[%lld] >= bytes_[%lld], out of range'')])"
    by (simp add: tensor_eval fresh16_def)
  have c: "head (fresh16\<lparr>head := Device,
           tensor_data := (new_MixMemory 0)\<lparr>mem_gpu := Some (replicate 16 0), mem_gpu_size := 16\<rparr>\<rparr>)
     \<noteq> head fresh16" by (simp add: fresh16_def)
  from fresh16_constructed a b c show ?thesis by force
qed

section \<open>Suppression, decoding and the cap on boxes\<close>

text \<open>
  Rounding in a known binade: for a magnitude between \<open>2 ^ (k + 23)\<close> and \<open>2 ^ (k + 24)\<close> the
  unit in the last place is \<open>2 ^ k\<close>.
\<close>

lemma round_half_even_of_int: "round_half_even (of_int z) = z"
  by (simp add: round_half_even_def)

lemma quantum_exp_eq:
  assumes "k0 \<le> k" "k \<le> k0 + int n" "k0 < k \<longrightarrow> 2 powi (k + 23) \<le> a" "a < 2 powi (k + 24)"
  shows "quantum_exp a k0 n = k"
  using assms
proof (induction n arbitrary: k0)
  case 0
  then show ?case by simp
next
  case (Suc n)
  show ?case
  proof (cases "a < 2 powi (k0 + 24)")
    case True
    have "k = k0"
    proof (rule ccontr)
      assume "k \<noteq> k0"
      with Suc.prems have lt: "k0 < k" and "2 powi (k + 23) \<le> a" by simp_all
      with True have "(2::real) powi (k + 23) < 2 powi (k0 + 24)" by linarith
      moreover from lt have "k0 + 24 \<le> k + 23" by simp
      then have "(2::real) powi (k0 + 24) \<le> 2 powi (k + 23)" by (rule power_int_increasing) simp
      ultimately show False by linarith
    qed
    with True show ?thesis by simp
  next
    case False
    with Suc.prems(4) have "k \<noteq> k0" by auto
    with Suc.prems have "k0 + 1 \<le> k" "k \<le> k0 + 1 + int n" "k0 + 1 < k \<longrightarrow> 2 powi (k + 23) \<le> a"
      by simp_all
    from Suc.IH[OF this Suc.prems(4)] False show ?thesis by simp
  qed
qed

lemma fround_binade:
  assumes "- 149 \<le> k" "k \<le> 104" "- 149 < k \<longrightarrow> 2 powi (k + 23) \<le> \<bar>x\<bar>" "\<bar>x\<bar> < 2 powi (k + 24)"
  shows "fround x =
     (let r = of_int (round_half_even (\<bar>x\<bar> / 2 powi k)) * 2 powi k in
      if r \<ge> 2 ^ 128 then (if x > 0 then PInf else NInf)
      else Finite (if x < 0 then - r else r))"
proof -
  have e: "quantum_exp \<bar>x\<bar> (- 149) 253 = k"
    by (rule quantum_exp_eq) (use assms in simp_all)
  show ?thesis unfolding fround_def Let_def e by (rule refl)
qed

text \<open>Rounding leaves the natural numbers up to \<open>2 ^ 24\<close> as they are.\<close>

lemma quantum_exp_bounds:
  "quantum_exp a k n = j \<Longrightarrow> k \<le> j \<and> (j = k \<or> 2 powi (j + 23) \<le> a)"
proof (induction n arbitrary: k)
  case 0
  then show ?case by simp
next
  case (Suc n)
  show ?case
  proof (cases "a < 2 powi (k + 24)")
    case True
    with Suc.prems show ?thesis by simp
  next
    case False
    with Suc.prems have "quantum_exp a (k + 1) n = j" by simp
    from Suc.IH[OF this] have j: "k + 1 \<le> j" "j = k + 1 \<or> 2 powi (j + 23) \<le> a" by simp_all
    from j(2) False have "2 powi (j + 23) \<le> a" by (auto simp: add.commute)
    with j(1) show ?thesis by simp
  qed
qed

lemma fround_of_nat:
  assumes "m \<le> 2 ^ 24"
  shows "fround (real m) = Finite (real m)"
proof -
  define j where "j = quantum_exp (real m) (- 149) 253"
  from quantum_exp_bounds[of "real m" "- 149" 253 j] j_def
  have j: "- 149 \<le> j" "j = - 149 \<or> 2 powi (j + 23) \<le> real m" by simp_all
  have "real m \<le> real (2 ^ 24)" using assms by (simp only: of_nat_le_iff)
  then have m': "real m \<le> 16777216" by simp
  have p24: "(2::real) powi 24 = 16777216" by simp
  from m' p24 have m: "real m \<le> 2 powi 24" by simp
  have j1: "j \<le> 1"
  proof (rule ccontr)
    assume "\<not> j \<le> 1"
    then have "24 < j + 23" by simp
    then have "(2::real) powi 24 < 2 powi (j + 23)" by (rule power_int_strict_increasing) simp
    with j(2) m \<open>\<not> j \<le> 1\<close> show False by linarith
  qed
  obtain z :: int where z: "real m / 2 powi j = of_int z"
  proof (cases "j \<le> 0")
    case True
    have "real m / 2 powi j = real m * 2 powi (- j)" by (simp add: power_int_minus field_simps)
    also have "2 powi (- j) = (2::real) ^ nat (- j)" using True by (simp add: power_int_def)
    finally have "real m / 2 powi j = of_int (int m * 2 ^ nat (- j))" by simp
    then show ?thesis using that by blast
  next
    case False
    with j1 have e: "j = 1" by simp
    with j(2) have "2 powi 24 \<le> real m" by simp
    with m have "real m = 2 powi 24" by simp
    then have "real m / 2 powi j = of_int (2 ^ 23)" unfolding e by simp
    then show ?thesis using that by blast
  qed
  have r: "of_int (round_half_even (real m / 2 powi j)) * 2 powi j = real m"
    unfolding z round_half_even_of_int using z by (simp add: field_simps)
  have "real m < 2 ^ 128" using m' by simp
  then show ?thesis
    unfolding fround_def Let_def j_def[symmetric] by (simp add: r j_def[symmetric])
qed

lemma fround_numeral: "numeral w \<le> (2 ^ 24 :: nat) \<Longrightarrow> fround (numeral w) = Finite (numeral w)"
  using fround_of_nat[of "numeral w"] by simp

lemma fround_0: "fround 0 = Finite 0"
  using fround_of_nat[of 0] by simp







text \<open>The comparisons of floats.\<close>

lemma flt_irrefl: "\<not> flt a a"
  by (cases a) simp_all


lemma feq_sym: "feq a b = feq b a"
  by (auto simp: feq_def)

lemma fgt_not_feq: "fgt a b \<Longrightarrow> \<not> feq a b"
  using flt_irrefl by (auto simp: fgt_def feq_def)


text \<open>The floats of some decimal literals, and three results of operations on them.\<close>

lemma float_09: "fround 0.9 = Finite (7549747 / 8388608)"
  using fround_binade[of "- 24" "0.9"] by (simp add: round_half_even_def Let_def)

lemma float_08: "fround (4 / 5) = Finite (13421773 / 16777216)"
  using fround_binade[of "- 24" "4 / 5"] by (simp add: round_half_even_def Let_def)

lemma float_06: "fround (3 / 5) = Finite (5033165 / 8388608)"
  using fround_binade[of "- 24" "3 / 5"] by (simp add: round_half_even_def Let_def)

lemma float_04: "fround (2 / 5) = Finite (13421773 / 33554432)"
  using fround_binade[of "- 25" "2 / 5"] by (simp add: round_half_even_def Let_def)

lemma float_02: "fround (1 / 5) = Finite (13421773 / 67108864)"
  using fround_binade[of "- 26" "1 / 5"] by (simp add: round_half_even_def Let_def)

lemma float_01: "fround (1 / 10) = Finite (13421773 / 134217728)"
  using fround_binade[of "- 27" "1 / 10"] by (simp add: round_half_even_def Let_def)

lemmas float_literals = float_09 float_08 float_06 float_04 float_02 float_01

lemma float_08_09: "fmul (fround 0.8) (fround 0.9) = Finite (12079595 / 16777216)"
  using fround_binade[of "- 24" "13421773 / 16777216 * (7549747 / 8388608)"]
  by (simp add: float_literals round_half_even_def Let_def)



lemma box_index_mod: "k < 6 \<Longrightarrow> (1 + i * 7 + k) mod 7 \<noteq> (0::nat)"
  by presburger

lemma same_boxes_nth:
  "same_boxes b b' \<Longrightarrow> k < 6 \<Longrightarrow> b ! (1 + i * 7 + k) = b' ! (1 + i * 7 + k)"
  using box_index_mod[of k i] by (simp add: same_boxes_def)

lemma same_boxes_refl: "same_boxes b b"
  by (simp add: same_boxes_def)

lemma same_boxes_trans: "same_boxes a b \<Longrightarrow> same_boxes b c \<Longrightarrow> same_boxes a c"
  by (simp add: same_boxes_def)

lemma same_boxes_flag: "same_boxes b (b[1 + p * 7 + 6 := v])"
proof -
  have "b ! k = b[1 + p * 7 + 6 := v] ! k" if "k = 0 \<or> k mod 7 \<noteq> 0" for k
  proof -
    have e: "1 + p * 7 + 6 = 7 * (p + 1)" by simp
    have "(7 * (p + 1)) mod 7 = 0" "7 * (p + 1) \<noteq> 0" by simp_all
    with that have "k \<noteq> 7 * (p + 1)" by metis
    then show ?thesis unfolding e by (rule nth_list_update_neq[symmetric, OF not_sym])
  qed
  then show ?thesis unfolding same_boxes_def by simp
qed

lemma same_boxes_suppresses:
  assumes "same_boxes b b'"
  shows "suppresses b' th p i = suppresses b th p i"
proof -
  note n = same_boxes_nth[OF assms]
  have "b ! (1 + j * 7) = b' ! (1 + j * 7)" for j using n[of 0 j] by simp
  then show ?thesis
    using n[of 1] n[of 2] n[of 3] n[of 4] n[of 5]
    by (simp add: suppresses_def NUM_BOX_ELEMENT_def)
qed

lemma nms_scan_iff:
  "nms_scan b th p is \<longleftrightarrow> (\<exists>i \<in> set is. suppresses b th p i)"
proof (induction "is")
  case Nil
  then show ?case by simp
next
  case (Cons i rest)
  show ?case
    unfolding nms_scan.simps Let_def set_simps bex_simps Cons.IH
    using fgt_not_feq[of "b ! (1 + i * NUM_BOX_ELEMENT + 4)" "b ! (1 + p * NUM_BOX_ELEMENT + 4)"]
      feq_sym[of "b ! (1 + p * NUM_BOX_ELEMENT + 5)" "b ! (1 + i * NUM_BOX_ELEMENT + 5)"]
    by (auto simp: suppresses_def fge_def fne_def)
qed

lemma same_boxes_count: "same_boxes b b' \<Longrightarrow> b ! 0 = b' ! 0"
  by (simp add: same_boxes_def)

lemma nms_thread_same: "same_boxes b (nms_thread mo th p b)"
  using same_boxes_flag[of b p "Finite 0"]
  by (simp add: nms_thread_def Let_def same_boxes_refl NUM_BOX_ELEMENT_def)

lemma nms_thread_flag:
  assumes "1 + q * 7 + 6 < length b"
  shows "nms_thread mo th p b ! (1 + q * 7 + 6) =
           (if q = p \<and> int p < min (float2int (b ! 0)) mo \<and>
               (\<exists>i. int i < min (float2int (b ! 0)) mo \<and> suppresses b th p i)
            then Finite 0 else b ! (1 + q * 7 + 6))"
proof -
  have s: "(\<exists>i \<in> set [0..<nat (min (float2int (b ! 0)) mo)]. suppresses b th p i) \<longleftrightarrow>
           (\<exists>i. int i < min (float2int (b ! 0)) mo \<and> suppresses b th p i)"
    by (auto simp: zless_nat_eq_int_zless)
  show ?thesis
    using assms unfolding nms_thread_def Let_def nms_scan_iff s
    by (auto simp: NUM_BOX_ELEMENT_def)
qed

lemma nms_fold_flag:
  assumes "same_boxes b0 b" "1 + q * 7 + 6 < length b"
  shows "same_boxes b0 (fold (nms_thread mo th) sched b) \<and>
         fold (nms_thread mo th) sched b ! (1 + q * 7 + 6) =
           (if q \<in> set sched \<and> int q < min (float2int (b0 ! 0)) mo \<and>
               (\<exists>i. int i < min (float2int (b0 ! 0)) mo \<and> suppresses b0 th q i)
            then Finite 0 else b ! (1 + q * 7 + 6))"
  using assms
proof (induction sched arbitrary: b)
  case Nil
  then show ?case by simp
next
  case (Cons p sched)
  let ?b1 = "nms_thread mo th p b"
  have sb: "same_boxes b0 ?b1" using Cons.prems(1) nms_thread_same same_boxes_trans by blast
  have len: "1 + q * 7 + 6 < length ?b1"
    using Cons.prems(2) nms_thread_same[of b mo th p] by (simp add: same_boxes_def)
  have c: "b ! 0 = b0 ! 0" using Cons.prems(1) by (simp add: same_boxes_count)
  have su: "suppresses b th p i = suppresses b0 th p i" for i
    by (rule same_boxes_suppresses[OF Cons.prems(1)])
  from Cons.IH[OF sb len] nms_thread_flag[OF Cons.prems(2), of mo th p]
  show ?case by (auto simp: c su)
qed

lemma nms_kernel_flag:
  assumes "1 + position * 7 + 6 < length bboxes"
  shows "same_boxes bboxes (nms_kernel sched bboxes max_objects threshold) \<and>
         nms_kernel sched bboxes max_objects threshold ! (1 + position * 7 + 6) =
           (if position \<in> set sched \<and> int position < min (float2int (bboxes ! 0)) max_objects \<and>
               (\<exists>i. int i < min (float2int (bboxes ! 0)) max_objects \<and>
                    suppresses bboxes threshold position i)
            then Finite 0 else bboxes ! (1 + position * 7 + 6))"
  unfolding nms_kernel_def by (rule nms_fold_flag[OF same_boxes_refl assms])

lemma trunc_quotient:
  assumes "0 \<le> a" "0 < b"
  shows "trunc (of_int a / of_int b) = a div b"
proof -
  have "(0::real) \<le> of_int a / of_int b" using assms by simp
  then have "trunc (of_int a / of_int b) = \<lfloor>(of_int a :: real) / of_int b\<rfloor>"
    by (simp only: trunc_def if_True)
  also have "\<dots> = a div b" by (rule floor_divide_of_int_eq)
  finally show ?thesis .
qed

lemma grid_block: 
  assumes n: "0 < n"
  shows "n \<le> grid_dims n * block_dims n"
proof (cases "n < 512")
  case True
  have "grid_dims n = (n + n - 1) div n"
    using True n trunc_quotient[of "n + n - 1" n]
    by (simp add: grid_dims_def GPU_BLOCK_THREADS_def)
  also have "n + n - 1 = n + (n - 1)" by simp
  also have "(n + (n - 1)) div n = (n - 1) div n + 1"
    by (rule div_add_self1) (use n in simp)
  also have "(n - 1) div n = 0" using n by (simp add: div_pos_pos_trivial)
  finally have "grid_dims n = 1" by simp
  then show ?thesis using True by (simp add: block_dims_def GPU_BLOCK_THREADS_def)
next
  case False
  have "grid_dims n = (n + 512 - 1) div 512"
    using False n trunc_quotient[of "n + 512 - 1" 512]
    by (simp add: grid_dims_def GPU_BLOCK_THREADS_def)
  then show ?thesis using False by (simp add: block_dims_def GPU_BLOCK_THREADS_def)
qed

lemma schedule_mem:
  "schedule n sched \<Longrightarrow> int p < n \<Longrightarrow> p \<in> set sched"
proof -
  assume s: "schedule n sched" and p: "int p < n"
  then have "0 < n" by linarith
  from grid_block[OF this] p have "p < launched n" by (simp add: launched_def)
  with s show ?thesis by (simp add: schedule_def)
qed

lemma launched_1024: "schedule 1024 [0..<1024]"
proof -
  have "grid_dims 1024 = (1024 + 512 - 1) div 512"
    using trunc_quotient[of "1024 + 512 - 1" 512]
    by (simp add: grid_dims_def GPU_BLOCK_THREADS_def)
  then have "launched 1024 = 1024"
    by (simp add: launched_def block_dims_def GPU_BLOCK_THREADS_def)
  then show ?thesis by (simp add: schedule_def)
qed

lemma float2int_2: "float2int (Finite 2) = 2"
  by (simp add: trunc_def)

lemma iou_two_boxes:
  "box_iou (Finite 0) (Finite 0) (Finite 10) (Finite 6) (Finite 0) (Finite 0) (Finite 10) (Finite 10)
     = fround 0.6"
  by (simp add: box_iou_def Let_def fmax_def fmin_def fsub_def feq_def fround_numeral fround_0)

lemma iou_two_boxes': 
  "box_iou (Finite 0) (Finite 0) (Finite 10) (Finite 10) (Finite 0) (Finite 0) (Finite 10) (Finite 6)
     = fround 0.6"
  by (simp add: box_iou_def Let_def fmax_def fmin_def fsub_def feq_def fround_numeral fround_0)

lemma suppresses_1_0:
  "suppresses b th 1 0 \<longleftrightarrow>
     feq (b ! 6) (b ! 13) \<and> fgt (b ! 5) (b ! 12) \<and>
     fgt (box_iou (b ! 8) (b ! 9) (b ! 10) (b ! 11) (b ! 1) (b ! 2) (b ! 3) (b ! 4)) th"
  by (simp add: suppresses_def NUM_BOX_ELEMENT_def del: One_nat_def)

lemma suppresses_0_1:
  "suppresses b th 0 1 \<longleftrightarrow>
     feq (b ! 6) (b ! 13) \<and> fge (b ! 12) (b ! 5) \<and>
     fgt (box_iou (b ! 1) (b ! 2) (b ! 3) (b ! 4) (b ! 8) (b ! 9) (b ! 10) (b ! 11)) th"
  using feq_sym[of "b ! 6" "b ! 13"]
  by (auto simp add: suppresses_def NUM_BOX_ELEMENT_def fge_def simp del: One_nat_def)

lemma suppresses_self: "\<not> suppresses b th p p"
  by (simp add: suppresses_def)

text \<open>
  Claim C2, as amended. When every started thread of \<open>nms_kernel\<close> has run, and the row
  holds the boxes its counter announces, the keep-flag of a box below the count is cleared
  exactly when some other box below the count suppresses it: a box of the same class whose
  confidence is higher, or equal with the \<^emph>\<open>higher\<close> index (on equal confidence
  the higher-index box keeps its flag and the lower-index box is cleared), and whose IoU
  with the box exceeds the threshold. Otherwise the flag is what it was. In the scenario
  of two class-0 boxes with confidences 0.9 and 0.8, IoU 0.6 and threshold 0.5, the 0.8
  box is suppressed and the 0.9 box is kept.
\<close>

theorem nms_kernel_suppression:
  "(schedule max_objects sched \<and>
    int position < min (float2int (bboxes ! 0)) max_objects \<and>
    1 + 7 * nat (min (float2int (bboxes ! 0)) max_objects) \<le> length bboxes \<longrightarrow>
    nms_kernel sched bboxes max_objects threshold ! (1 + position * NUM_BOX_ELEMENT + 6) =
      (if \<exists>i. int i < min (float2int (bboxes ! 0)) max_objects \<and>
               suppresses bboxes threshold position i
       then Finite 0 else bboxes ! (1 + position * NUM_BOX_ELEMENT + 6))) \<and>
   (schedule max_objects sched \<and> 2 \<le> max_objects \<and> 15 \<le> length b \<and> float2int (b ! 0) = 2 \<and>
    b ! 6 = Finite 0 \<and> b ! 13 = Finite 0 \<and> b ! 5 = fround 0.9 \<and> b ! 12 = fround 0.8 \<and>
    b ! 7 = Finite 1 \<and> b ! 14 = Finite 1 \<and>
    box_iou (b ! 8) (b ! 9) (b ! 10) (b ! 11) (b ! 1) (b ! 2) (b ! 3) (b ! 4) = fround 0.6 \<longrightarrow>
    nms_kernel sched b max_objects (Finite 0.5) ! 7 = Finite 1 \<and>
    nms_kernel sched b max_objects (Finite 0.5) ! 14 = Finite 0)"
proof (intro conjI impI)
  assume a: "schedule max_objects sched \<and>
    int position < min (float2int (bboxes ! 0)) max_objects \<and>
    1 + 7 * nat (min (float2int (bboxes ! 0)) max_objects) \<le> length bboxes"
  then have p: "position \<in> set sched" using schedule_mem[of max_objects sched position] by simp
  from a have "position < nat (min (float2int (bboxes ! 0)) max_objects)"
    by (simp add: zless_nat_eq_int_zless)
  with a have len: "1 + position * 7 + 6 < length bboxes" by linarith
  from nms_kernel_flag[OF len, of sched max_objects threshold] p a
  show "nms_kernel sched bboxes max_objects threshold ! (1 + position * NUM_BOX_ELEMENT + 6) =
      (if \<exists>i. int i < min (float2int (bboxes ! 0)) max_objects \<and>
               suppresses bboxes threshold position i
       then Finite 0 else bboxes ! (1 + position * NUM_BOX_ELEMENT + 6))"
    by (auto simp: NUM_BOX_ELEMENT_def)
next
  assume a: "schedule max_objects sched \<and> 2 \<le> max_objects \<and> 15 \<le> length b \<and> float2int (b ! 0) = 2 \<and>
    b ! 6 = Finite 0 \<and> b ! 13 = Finite 0 \<and> b ! 5 = fround 0.9 \<and> b ! 12 = fround 0.8 \<and>
    b ! 7 = Finite 1 \<and> b ! 14 = Finite 1 \<and>
    box_iou (b ! 8) (b ! 9) (b ! 10) (b ! 11) (b ! 1) (b ! 2) (b ! 3) (b ! 4) = fround 0.6"
  then have c: "min (float2int (b ! 0)) max_objects = 2" by simp
  have two: "int i < 2 \<longleftrightarrow> i = 0 \<or> i = 1" for i by auto
  from a have f: "b ! 6 = b ! 13" "b ! 6 = Finite 0" "b ! 5 = fround 0.9" "b ! 12 = fround 0.8"
    "box_iou (b ! 8) (b ! 9) (b ! 10) (b ! 11) (b ! 1) (b ! 2) (b ! 3) (b ! 4) = fround 0.6"
    by simp_all
  have "\<not> fge (b ! 12) (b ! 5)"
    unfolding f by (simp add: float_literals fge_def fgt_def feq_def)
  then have "\<not> suppresses b (Finite (1/2)) 0 1" unfolding suppresses_0_1 by simp
  then have s0: "\<not> suppresses b (Finite (1/2)) 0 i" if "int i < 2" for i
    using that suppresses_self[of b "Finite (1/2)" 0] unfolding two by auto
  have "feq (b ! 6) (b ! 13)" unfolding f(1)[symmetric] f(2) by (simp add: feq_def)
  moreover have "fgt (b ! 5) (b ! 12)" unfolding f by (simp add: float_literals fgt_def)
  moreover have "fgt (box_iou (b ! 8) (b ! 9) (b ! 10) (b ! 11) (b ! 1) (b ! 2) (b ! 3) (b ! 4))
      (Finite (1/2))"
    unfolding f by (simp add: float_literals fgt_def)
  ultimately have s1: "suppresses b (Finite (1/2)) 1 0" unfolding suppresses_1_0 by simp
  from a have m: "0 \<in> set sched" "1 \<in> set sched"
    using schedule_mem[of max_objects sched 0] schedule_mem[of max_objects sched 1] by simp_all
  have l0: "1 + 0 * 7 + 6 < length b" and l1: "1 + 1 * 7 + 6 < length b" using a by simp_all
  have "nms_kernel sched b max_objects (Finite (1/2)) ! (1 + 0 * 7 + 6) = b ! (1 + 0 * 7 + 6)"
    using nms_kernel_flag[OF l0, of sched max_objects "Finite (1/2)"] s0 unfolding c by auto
  then show "nms_kernel sched b max_objects (Finite 0.5) ! 7 = Finite 1" using a by simp
  have "nms_kernel sched b max_objects (Finite (1/2)) ! (1 + 1 * 7 + 6) = Finite 0"
    using nms_kernel_flag[OF l1, of sched max_objects "Finite (1/2)"] s1 m unfolding c by auto
  then show "nms_kernel sched b max_objects (Finite 0.5) ! 14 = Finite 0" by simp
qed

text \<open>
  The theorem on \<open>two_boxes\<close>, with the 1024 threads the worker's launch starts.
\<close>

theorem nms_kernel_suppression_witness:
  "schedule 1024 [0..<1024] \<and> float2int (two_boxes ! 0) = 2 \<and> length two_boxes = 15 \<and>
   box_iou (two_boxes ! 8) (two_boxes ! 9) (two_boxes ! 10) (two_boxes ! 11)
           (two_boxes ! 1) (two_boxes ! 2) (two_boxes ! 3) (two_boxes ! 4) = fround 0.6 \<and>
   suppresses two_boxes (Finite 0.5) 1 0 \<and>
   nms_kernel [0..<1024] two_boxes 1024 (Finite 0.5) ! (1 + 1 * NUM_BOX_ELEMENT + 6) = Finite 0 \<and>
   nms_kernel [0..<1024] two_boxes 1024 (Finite 0.5) ! 7 = Finite 1 \<and>
   nms_kernel [0..<1024] two_boxes 1024 (Finite 0.5) ! 14 = Finite 0"
proof -
  have c: "float2int (two_boxes ! 0) = 2" using float2int_2 by (simp add: two_boxes_def)
  have l: "length two_boxes = 15" by (simp add: two_boxes_def)
  have i: "box_iou (two_boxes ! 8) (two_boxes ! 9) (two_boxes ! 10) (two_boxes ! 11)
           (two_boxes ! 1) (two_boxes ! 2) (two_boxes ! 3) (two_boxes ! 4) = fround 0.6"
    using iou_two_boxes by (simp add: two_boxes_def)
  have v: "two_boxes ! 6 = Finite 0 \<and> two_boxes ! 13 = Finite 0 \<and> two_boxes ! 5 = fround 0.9 \<and>
           two_boxes ! 12 = fround 0.8 \<and> two_boxes ! 7 = Finite 1 \<and> two_boxes ! 14 = Finite 1"
    by (simp add: two_boxes_def)
  have "fgt (fround 0.9) (fround 0.8)" "fgt (fround 0.6) (Finite 0.5)" "feq (Finite 0) (Finite 0)"
    by (simp_all add: float_literals fgt_def feq_def)
  then have s: "suppresses two_boxes (Finite 0.5) 1 0"
    unfolding suppresses_1_0 i using v by simp
  note t = nms_kernel_suppression[of 1024 "[0..<1024]" 1 two_boxes "Finite 0.5" two_boxes]
  have g: "nms_kernel [0..<1024] two_boxes 1024 (Finite 0.5) ! (1 + 1 * NUM_BOX_ELEMENT + 6) = Finite 0"
    using t launched_1024 c l s by (auto simp: NUM_BOX_ELEMENT_def)
  have h: "nms_kernel [0..<1024] two_boxes 1024 (Finite 0.5) ! 7 = Finite 1 \<and>
           nms_kernel [0..<1024] two_boxes 1024 (Finite 0.5) ! 14 = Finite 0"
    using t launched_1024 c l i v by simp
  from launched_1024 c l i s g h show ?thesis by blast
qed

text \<open>
  Claim C2 as stated fails on a tie: of two overlapping class-0 boxes of confidence 0.9,
  with IoU 0.6 over the threshold 0.5, the kernel clears the flag of box 0, the lower
  index, and keeps box 1.
\<close>

theorem nms_tie_suppresses_lower_index:
  "schedule 1024 [0..<1024] \<and> float2int (tied_boxes ! 0) = 2 \<and>
   tied_boxes ! 6 = tied_boxes ! 13 \<and> tied_boxes ! 5 = tied_boxes ! 12 \<and>
   tied_boxes ! 5 = fround 0.9 \<and> tied_boxes ! 7 = Finite 1 \<and> tied_boxes ! 14 = Finite 1 \<and>
   box_iou (tied_boxes ! 1) (tied_boxes ! 2) (tied_boxes ! 3) (tied_boxes ! 4)
           (tied_boxes ! 8) (tied_boxes ! 9) (tied_boxes ! 10) (tied_boxes ! 11) = fround 0.6 \<and>
   nms_kernel [0..<1024] tied_boxes 1024 (Finite 0.5) ! 7 = Finite 0 \<and>
   nms_kernel [0..<1024] tied_boxes 1024 (Finite 0.5) ! 14 = Finite 1"
proof -
  have c: "float2int (tied_boxes ! 0) = 2" using float2int_2 by (simp add: tied_boxes_def)
  then have m: "min (float2int (tied_boxes ! 0)) 1024 = 2" by simp
  have v: "tied_boxes ! 6 = tied_boxes ! 13 \<and> tied_boxes ! 5 = tied_boxes ! 12 \<and>
           tied_boxes ! 5 = fround 0.9 \<and> tied_boxes ! 7 = Finite 1 \<and> tied_boxes ! 14 = Finite 1"
    by (simp add: tied_boxes_def)
  have e: "tied_boxes ! 6 = Finite 0" "tied_boxes ! 13 = Finite 0" "tied_boxes ! 12 = fround 0.9"
    by (simp_all add: tied_boxes_def)
  have i: "box_iou (tied_boxes ! 1) (tied_boxes ! 2) (tied_boxes ! 3) (tied_boxes ! 4)
           (tied_boxes ! 8) (tied_boxes ! 9) (tied_boxes ! 10) (tied_boxes ! 11) = fround 0.6"
    using iou_two_boxes' by (simp add: tied_boxes_def)
  have two: "int i < 2 \<longleftrightarrow> i = 0 \<or> i = 1" for i by auto
  have k: "fge (fround 0.9) (fround 0.9)" "\<not> fgt (fround 0.9) (fround 0.9)"
    "fgt (fround 0.6) (Finite (1/2))" "feq (Finite 0) (Finite 0)"
    by (simp_all add: float_literals fge_def fgt_def feq_def)
  have s0: "suppresses tied_boxes (Finite (1/2)) 0 1"
    unfolding suppresses_0_1 i using v e k by simp
  have "\<not> suppresses tied_boxes (Finite (1/2)) 1 0"
    unfolding suppresses_1_0 using v e k by simp
  then have s1: "\<not> suppresses tied_boxes (Finite (1/2)) 1 i" if "int i < 2" for i
    using that suppresses_self[of tied_boxes "Finite (1/2)" 1] unfolding two by auto
  have l0: "1 + 0 * 7 + 6 < length tied_boxes" and l1: "1 + 1 * 7 + 6 < length tied_boxes"
    by (simp_all add: tied_boxes_def)
  have "nms_kernel [0..<1024] tied_boxes 1024 (Finite (1/2)) ! (1 + 0 * 7 + 6) = Finite 0"
    using nms_kernel_flag[OF l0, of "[0..<1024]" 1024 "Finite (1/2)"] s0 unfolding m by auto
  then have a: "nms_kernel [0..<1024] tied_boxes 1024 (Finite 0.5) ! 7 = Finite 0" by simp
  have "nms_kernel [0..<1024] tied_boxes 1024 (Finite (1/2)) ! (1 + 1 * 7 + 6)
          = tied_boxes ! (1 + 1 * 7 + 6)"
    using nms_kernel_flag[OF l1, of "[0..<1024]" 1024 "Finite (1/2)"] s1 unfolding m by auto
  then have b: "nms_kernel [0..<1024] tied_boxes 1024 (Finite 0.5) ! 14 = Finite 1" using v by simp
  from launched_1024 c v i a b show ?thesis by blast
qed

lemma fold_append_filter:
  "fold (\<lambda>i bs. if P i then bs @ [f i] else bs) xs out = out @ map f (filter P xs)"
  by (induction xs arbitrary: out) simp_all

lemma collect_boxes_eq:
  "collect_boxes parray out =
     out @ map (box_at parray)
           (filter (\<lambda>i. to_int (parray ! (1 + i * NUM_BOX_ELEMENT + 6)) = 1)
                   [0..<nat (min MAX_IMAGE_BBOX (to_int (parray ! 0)))])"
  unfolding collect_boxes_def Let_def by (rule fold_append_filter)

lemma decode_thread_overflow:
  "float2int (parray ! 0) \<ge> max_objects \<Longrightarrow>
   decode_thread predict num_bboxes num_classes ct m max_objects position parray = parray \<or>
   decode_thread predict num_bboxes num_classes ct m max_objects position parray
     = parray[0 := fadd (parray ! 0) (Finite 1)]"
  by (simp add: decode_thread_def Let_def)

text \<open>
  Claim C9. The boxes the worker appends to a job's output are those of the indices below
  the counter clamped to \<open>MAX_IMAGE_BBOX = 1024\<close> whose keep-flag converts to 1, in
  order; so an output that started empty holds at most 1024 boxes, each of them a stored
  box with keep-flag 1 below the count and below the cap. In \<open>decode_kernel\<close>, a thread
  that finds the counter at \<open>max_objects\<close> or more leaves the row as it is or only adds 1
  to the counter: the detection is dropped, and nothing reports it.
\<close>

theorem collect_boxes_capped:
  "collect_boxes parray out =
     out @ map (box_at parray)
           (filter (\<lambda>i. to_int (parray ! (1 + i * NUM_BOX_ELEMENT + 6)) = 1)
                   [0..<nat (min MAX_IMAGE_BBOX (to_int (parray ! 0)))]) \<and>
   length (collect_boxes parray []) \<le> 1024 \<and>
   (\<forall>b \<in> set (collect_boxes parray []).
      \<exists>i. int i < MAX_IMAGE_BBOX \<and> int i < to_int (parray ! 0) \<and>
          to_int (parray ! (1 + i * NUM_BOX_ELEMENT + 6)) = 1 \<and> b = box_at parray i) \<and>
   (float2int (parray ! 0) \<ge> max_objects \<longrightarrow>
      decode_thread predict num_bboxes num_classes ct m max_objects position parray = parray \<or>
      decode_thread predict num_bboxes num_classes ct m max_objects position parray
        = parray[0 := fadd (parray ! 0) (Finite 1)])"
proof -
  let ?n = "nat (min MAX_IMAGE_BBOX (to_int (parray ! 0)))"
  let ?keep = "\<lambda>i. to_int (parray ! (1 + i * NUM_BOX_ELEMENT + 6)) = 1"
  have n: "?n \<le> 1024" by (simp add: MAX_IMAGE_BBOX_def)
  have "length (filter ?keep [0..<?n]) \<le> length [0..<?n]" by (rule length_filter_le)
  with n have len: "length (collect_boxes parray []) \<le> 1024"
    by (simp add: collect_boxes_eq del: length_filter_le)
  have mem: "\<forall>b \<in> set (collect_boxes parray []).
      \<exists>i. int i < MAX_IMAGE_BBOX \<and> int i < to_int (parray ! 0) \<and> ?keep i \<and> b = box_at parray i"
  proof
    fix b assume "b \<in> set (collect_boxes parray [])"
    then obtain i where i: "i < ?n" "?keep i" "b = box_at parray i"
      by (auto simp: collect_boxes_eq)
    from i(1) have "int i < MAX_IMAGE_BBOX \<and> int i < to_int (parray ! 0)"
      by (simp add: zless_nat_eq_int_zless)
    with i show "\<exists>i. int i < MAX_IMAGE_BBOX \<and> int i < to_int (parray ! 0) \<and> ?keep i \<and> b = box_at parray i"
      by blast
  qed
  from collect_boxes_eq len mem decode_thread_overflow show ?thesis by blast
qed

text \<open>
  The theorem on a row whose counter says 2000: exactly 1024 boxes are handed out, and
  one more confident detection only moves the counter to 2001. On \<open>two_boxes\<close> with the
  second flag cleared, the one box handed out is the first.
\<close>

theorem collect_boxes_capped_witness:
  "to_int (full_row ! 0) = 2000 \<and> float2int (full_row ! 0) = 2000 \<and>
   length full_row = 1 + 7 * 1024 \<and>
   length (collect_boxes full_row []) = 1024 \<and>
   (decode_thread [Finite 0, Finite 0, Finite 2, Finite 2, fround 0.9, fround 0.8] 1 1 (Finite 0.5)
      identity_matrix 1024 0 full_row
      = full_row[0 := Finite 2001]) \<and>
   collect_boxes (two_boxes[14 := Finite 0]) [] =
     [\<lparr>box_left = Finite 0, box_top = Finite 0, box_right = Finite 10, box_bottom = Finite 10,
       box_confidence = fround 0.9, box_class_label = 0\<rparr>]"
proof -
  have c: "to_int (full_row ! 0) = 2000" by (simp add: full_row_def trunc_def)
  have c': "float2int (full_row ! 0) = 2000" by (simp add: full_row_def trunc_def)
  have l: "length full_row = 1 + 7 * 1024" by (simp add: full_row_def)
  have k: "to_int (full_row ! (1 + i * NUM_BOX_ELEMENT + 6)) = 1" if "i < 1024" for i
    using that by (simp add: full_row_def NUM_BOX_ELEMENT_def trunc_def)
  note t = collect_boxes_capped[of full_row "[]" 1024
      "[Finite 0, Finite 0, Finite 2, Finite 2, fround 0.9, fround 0.8]" 1 1 "Finite 0.5"
      identity_matrix 0]
  have n: "nat (min MAX_IMAGE_BBOX (to_int (full_row ! 0))) = 1024"
    unfolding c by (simp add: MAX_IMAGE_BBOX_def)
  have "filter (\<lambda>i. to_int (full_row ! (1 + i * NUM_BOX_ELEMENT + 6)) = 1) [0..<1024] = [0..<1024]"
    using k by (simp add: filter_id_conv)
  with t n have len: "length (collect_boxes full_row []) = 1024" by simp
  have a: "fadd (full_row ! 0) (Finite 1) = Finite 2001"
    by (simp add: full_row_def fround_numeral)
  have o: "\<not> flt (fround 0.9) (Finite 0.5)" unfolding float_09 by simp
  have p: "\<not> flt (fmul (fround 0.8) (fround 0.9)) (Finite 0.5)" unfolding float_08_09 by simp
  have "decode_thread [Finite 0, Finite 0, Finite 2, Finite 2, fround 0.9, fround 0.8] 1 1 (Finite 0.5)
      identity_matrix 1024 0 full_row \<noteq> full_row"
    unfolding decode_thread_def Let_def best_class_def c' a
    using o p by (simp add: full_row_def)
  with t c' a have d: "decode_thread [Finite 0, Finite 0, Finite 2, Finite 2, fround 0.9, fround 0.8]
      1 1 (Finite 0.5) identity_matrix 1024 0 full_row = full_row[0 := Finite 2001]"
    by simp
  have s: "collect_boxes (two_boxes[14 := Finite 0]) [] =
     [\<lparr>box_left = Finite 0, box_top = Finite 0, box_right = Finite 10, box_bottom = Finite 10,
       box_confidence = fround 0.9, box_class_label = 0\<rparr>]"
    by (simp add: collect_boxes_def two_boxes_def MAX_IMAGE_BBOX_def NUM_BOX_ELEMENT_def
        box_at_def Let_def trunc_def numeral_2_eq_2)
  from c c' l len d s show ?thesis by blast
qed
























section \<open>Creation, submission and shutdown\<close>














lemma set_value_pending:
  "p < length ps \<Longrightarrow> ps ! p = None \<Longrightarrow> set_value p v ps = Inr (ps[p := Some v])"
  by (simp add: set_value_def)

lemma drain_pending:
  assumes "distinct (queued_promises js)"
    and "\<forall>p \<in> set (queued_promises js). p < length ps \<and> ps ! p = None"
  shows "\<exists>ps'. drain js ps = Inr ps' \<and> length ps' = length ps \<and>
           (\<forall>p \<in> set (queued_promises js). ps' ! p = Some []) \<and>
           (\<forall>p. p \<notin> set (queued_promises js) \<longrightarrow> ps' ! p = ps ! p)"
  using assms
proof (induction js arbitrary: ps)
  case Nil
  then show ?case by simp
next
  case (Cons item rest)
  show ?case
  proof (cases "pro item")
    case None
    with Cons show ?thesis by simp
  next
    case (Some p)
    with Cons.prems have p: "p < length ps" "ps ! p = None" "p \<notin> set (queued_promises rest)"
      and d: "distinct (queued_promises rest)"
      and r: "\<forall>q \<in> set (queued_promises rest). q < length ps \<and> ps ! q = None"
      by auto
    let ?ps = "ps[p := Some []]"
    have r': "\<forall>q \<in> set (queued_promises rest). q < length ?ps \<and> ?ps ! q = None"
    proof
      fix q assume q: "q \<in> set (queued_promises rest)"
      with p(3) have "q \<noteq> p" by auto
      then have "?ps ! q = ps ! q" by simp
      with r q show "q < length ?ps \<and> ?ps ! q = None" by simp
    qed
    from Cons.IH[OF d r'] obtain ps' where ps': "drain rest ?ps = Inr ps'"
      "length ps' = length ps"
      "\<forall>q \<in> set (queued_promises rest). ps' ! q = Some []"
      "\<forall>q. q \<notin> set (queued_promises rest) \<longrightarrow> ps' ! q = ?ps ! q"
      by auto
    have "drain (item # rest) ps = Inr ps'"
      using Some set_value_pending[OF p(1,2)] ps'(1) by simp
    moreover have "ps' ! p = Some []" using ps'(4) p(1,3) by simp
    moreover have "\<forall>q. q \<notin> set (queued_promises (item # rest)) \<longrightarrow> ps' ! q = ps ! q"
      using ps'(4) Some by (auto simp: nth_list_update)
    ultimately show ?thesis using ps'(2,3) Some by auto
  qed
qed

text \<open>
  On an object whose queued jobs hold promises of their own that are still pending,
  \<open>stop()\<close> returns; afterwards the queue is empty, the object is not running, every
  promise of a queued job holds the empty output, every other promise is what it was, and
  the worker thread has been joined, once, if there was one. A second \<open>stop()\<close> returns
  too and changes nothing but the notifications sent: no promise is set again and nothing
  is joined. \<open>commit\<close> keeps the queue in that condition (below); \<open>commits\<close> does not.
\<close>

lemma stop_drains_once:
  assumes "queue_pending st"
  shows "\<exists>st'. stop st = Inr st' \<and>
           jobs st' = [] \<and> \<not> run st' \<and> \<not> worker_thread st' \<and>
           joined st' = joined st + (if worker_thread st then 1 else 0) \<and>
           length (promises st') = length (promises st) \<and>
           (\<forall>p \<in> set (queued_promises (jobs st)). promises st' ! p = Some []) \<and>
           (\<forall>p. p \<notin> set (queued_promises (jobs st)) \<longrightarrow> promises st' ! p = promises st ! p) \<and>
           stop st' = Inr (st'\<lparr>cond := cond st' @ [NotifyAll]\<rparr>)"
proof -
  from assms have "distinct (queued_promises (jobs st))"
    "\<forall>p \<in> set (queued_promises (jobs st)). p < length (promises st) \<and> promises st ! p = None"
    unfolding queue_pending_def by simp_all
  from drain_pending[OF this] obtain ps' where ps': "drain (jobs st) (promises st) = Inr ps'"
    "length ps' = length (promises st)"
    "\<forall>p \<in> set (queued_promises (jobs st)). ps' ! p = Some []"
    "\<forall>p. p \<notin> set (queued_promises (jobs st)) \<longrightarrow> ps' ! p = promises st ! p"
    by blast
  define st2 where "st2 = st\<lparr>run := False, cond := cond st @ [NotifyAll], jobs := [], promises := ps'\<rparr>"
  define st' where "st' = (if worker_thread st2 then join_worker st2 else st2)"
  have s: "stop st = Inr st'"
    using ps'(1) by (simp add: stop_def Let_def st'_def st2_def)
  have f: "jobs st' = []" "\<not> run st'" "\<not> worker_thread st'" "promises st' = ps'"
    "joined st' = joined st + (if worker_thread st then 1 else 0)"
    by (simp_all add: st'_def st2_def join_worker_def)
  have again: "stop st' = Inr (st'\<lparr>cond := cond st' @ [NotifyAll]\<rparr>)"
    using f(1,2,3) by (simp add: stop_def Let_def)
  from s f again ps' show ?thesis by simp
qed


lemmas controller_eval = commit_def commits_def commits_epoch_def commits_item_def preprocess_def
  query_def query_take_def set_value_def new_Job_def stop_def join_worker_def
  worker_release_def serving_def pool_of_two_def exhausted_pool_def two_queued_def
  stopped_def three_committed_def warp0_def Let_def

lemma two_queued_reached:
  "commit warp0 id () serving = Inr (0, s1) \<Longrightarrow> commit warp0 id () s1 = Inr (1, two_queued)"
  by (auto simp: controller_eval)

lemma queue_pending_two_queued: "queue_pending two_queued"
  by (simp add: queue_pending_def controller_eval)

lemma stop_two_queued: "stop two_queued = Inr stopped"
  by (simp add: controller_eval)

text \<open>
  At \<open>two_queued\<close>: both pending promises get the empty output, the worker is joined once,
  and the second \<open>stop()\<close> leaves promises and join count alone.
\<close>

lemma stop_drains_once_witness:
  "queue_pending two_queued \<and> queued_promises (jobs two_queued) = [0, 1] \<and>
   promises two_queued = [None, None] \<and> joined two_queued = 0 \<and>
   stop two_queued = Inr stopped \<and>
   promises stopped = [Some [], Some []] \<and> jobs stopped = [] \<and> joined stopped = 1 \<and>
   stop stopped = Inr (stopped\<lparr>cond := cond stopped @ [NotifyAll]\<rparr>)"
proof -
  from stop_drains_once[OF queue_pending_two_queued] stop_two_queued
  have "stop stopped = Inr (stopped\<lparr>cond := cond stopped @ [NotifyAll]\<rparr>)" by auto
  moreover have "queued_promises (jobs two_queued) = [0, 1]" "promises two_queued = [None, None]"
    "joined two_queued = 0" "promises stopped = [Some [], Some []]" "jobs stopped = []"
    "joined stopped = 1"
    by (simp_all add: controller_eval)
  ultimately show ?thesis using queue_pending_two_queued stop_two_queued by simp
qed

lemma commits_three:
  "commits warp0 (\<lambda>i. id) [(), (), ()] serving = Inr ([Some 0, Some 1, Some 2], three_committed)"
  by code_simp

text \<open>
  Claim C1 fails in \<open>commits\<close>. With both slots of the pool taken and nothing released
  while the third \<open>query\<close> waits, \<open>commits\<close> of three images sets the third promise to the
  empty output and still puts the third job into the queue. \<open>stop()\<close> then sets that
  promise a second time, which throws, and the worker's first loop dereferences the
  job's null slot. \<open>commit\<close>, in the same situation, sets the promise and queues nothing.
\<close>

theorem commits_queues_fulfilled_job:
  "commits warp0 (\<lambda>i. id) [(), (), ()] serving = Inr ([Some 0, Some 1, Some 2], three_committed) \<and>
   pro (jobs three_committed ! 2) = Some 2 \<and> mono_tensor (jobs three_committed ! 2) = None \<and>
   promises three_committed ! 2 = Some [] \<and>
   stop three_committed = Inl PromiseAlreadySatisfied \<and>
   worker_release (jobs three_committed ! 2) three_committed = Inl Undefined \<and>
   commit warp0 id () two_queued =
     Inr (2, two_queued\<lparr>tensor_allocator := Some (exhausted_pool\<lparr>cv_exit := [NotifyOne]\<rparr>),
                        promises := [None, None, Some []],
                        logged := [(Error, ''Tensor allocator query failed.'')]\<rparr>)"
proof -
  have j: "pro (jobs three_committed ! 2) = Some 2" "mono_tensor (jobs three_committed ! 2) = None"
    "promises three_committed ! 2 = Some []"
    by (simp_all add: controller_eval)
  have s: "stop three_committed = Inl PromiseAlreadySatisfied"
    by (simp add: controller_eval)
  have w: "worker_release (jobs three_committed ! 2) three_committed = Inl Undefined"
    by (simp add: controller_eval)
  have m: "commit warp0 id () two_queued =
     Inr (2, two_queued\<lparr>tensor_allocator := Some (exhausted_pool\<lparr>cv_exit := [NotifyOne]\<rparr>),
                        promises := [None, None, Some []],
                        logged := [(Error, ''Tensor allocator query failed.'')]\<rparr>)"
    by (simp add: controller_eval)
  from commits_three j s w m show ?thesis by simp
qed

text \<open>
  Claim C8 fails on a state \<open>commits\<close> leaves, through the defect of claim C1. After
  \<open>commits\<close> of three images on the running instance with a pool of two slots, none
  released, three jobs are queued, and the promise of the third already holds the empty
  output. \<open>stop()\<close> on that object does not return: its loop over the queue sets the first
  two promises and then the third a second time, which throws before the queue is empty
  and before the worker is joined.
\<close>

theorem stop_throws_on_fulfilled_job:
  "commits warp0 (\<lambda>i. id) [(), (), ()] serving = Inr ([Some 0, Some 1, Some 2], three_committed) \<and>
   run three_committed \<and> worker_thread three_committed \<and>
   queued_promises (jobs three_committed) = [0, 1, 2] \<and>
   promises three_committed = [None, None, Some []] \<and>
   drain (take 2 (jobs three_committed)) (promises three_committed) = Inr [Some [], Some [], Some []] \<and>
   set_value 2 [] [Some [], Some [], Some []] = Inl PromiseAlreadySatisfied \<and>
   stop three_committed = Inl PromiseAlreadySatisfied"
proof -
  have q: "run three_committed" "worker_thread three_committed"
    "queued_promises (jobs three_committed) = [0, 1, 2]"
    "promises three_committed = [None, None, Some []]"
    by (simp_all add: controller_eval)
  have d: "drain (take 2 (jobs three_committed)) (promises three_committed)
             = Inr [Some [], Some [], Some []]"
    by (simp add: controller_eval)
  have v: "set_value 2 [] [Some [], Some [], Some []] = Inl PromiseAlreadySatisfied"
    by (simp add: set_value_def)
  have s: "stop three_committed = Inl PromiseAlreadySatisfied"
    by (simp add: controller_eval)
  from commits_three q d v s show ?thesis by simp
qed

text \<open>
  \<open>commit\<close> keeps the queue pending: its new promise is fresh, and is either fulfilled
  with no job queued, or left pending with its job queued.
\<close>

lemma preprocess_keeps:
  "jobs (snd (snd (preprocess warp dw job img st))) = jobs st \<and>
   promises (snd (snd (preprocess warp dw job img st))) = promises st \<and>
   cond (snd (snd (preprocess warp dw job img st))) = cond st \<and>
   pro (fst (snd (preprocess warp dw job img st))) = pro job"
  by (simp add: preprocess_def Let_def split: option.splits prod.splits)

lemma queued_promises_append:
  "queued_promises (js @ [j]) =
     queued_promises js @ (case pro j of None \<Rightarrow> [] | Some p \<Rightarrow> [p])"
  by (induction js) (auto split: option.splits)

lemma queue_pending_commit:
  assumes "queue_pending st" "commit warp dw img st = Inr (p, st')"
  shows "queue_pending st' \<and> p = length (promises st) \<and>
         length (promises st') = Suc (length (promises st))"
proof -
  let ?p = "length (promises st)"
  let ?job = "new_Job\<lparr>pro := Some ?p\<rparr> :: ('a, 'b) Job"
  let ?st1 = "st\<lparr>promises := promises st @ [None]\<rparr>"
  let ?r = "preprocess warp dw ?job img ?st1"
  note k = preprocess_keeps[of warp dw ?job img ?st1]
  from assms(1) have d: "distinct (queued_promises (jobs st))"
    and q: "\<And>x. x \<in> set (queued_promises (jobs st)) \<Longrightarrow> x < ?p \<and> promises st ! x = None"
    unfolding queue_pending_def by auto
  show ?thesis
  proof (cases "fst ?r")
    case False
    have sv: "set_value ?p [] (promises st @ [None]) = Inr ((promises st @ [None])[?p := Some []])"
      by (simp add: set_value_def)
    from assms(2) False sv k
    have e: "p = ?p" "jobs st' = jobs st" "promises st' = (promises st @ [None])[?p := Some []]"
      unfolding commit_def Let_def by auto
    have "x < length (promises st') \<and> promises st' ! x = None"
      if "x \<in> set (queued_promises (jobs st))" for x
      using q[OF that] unfolding e(3) by (simp add: nth_append)
    with d e show ?thesis unfolding queue_pending_def by simp
  next
    case True
    from assms(2) True k
    have e: "p = ?p" "jobs st' = jobs st @ [fst (snd ?r)]" "promises st' = promises st @ [None]"
      unfolding commit_def Let_def by auto
    have pj: "pro (fst (snd ?r)) = Some ?p" using k by simp
    have qp: "queued_promises (jobs st') = queued_promises (jobs st) @ [?p]"
      unfolding e(2) queued_promises_append pj by simp
    have "?p \<notin> set (queued_promises (jobs st))" using q by auto
    with d have d': "distinct (queued_promises (jobs st'))" unfolding qp by simp
    have "x < length (promises st') \<and> promises st' ! x = None"
      if "x \<in> set (queued_promises (jobs st'))" for x
      using that q[of x] unfolding qp e(3) by (auto simp: nth_append)
    with d' e show ?thesis unfolding queue_pending_def by simp
  qed
qed

lemma queue_pending_serving: "queue_pending serving"
  by (simp add: queue_pending_def serving_def)

end
